theory Spec2Isabelle
  imports Main
begin

section \<open>Values at the boundary of \<open>scripts/upload-assets.js\<close>\<close>

text \<open>
  The script is one asynchronous function. It reads its parameters, talks to the
  hosting service through \<open>github.rest.repos\<close>, reads the file system through
  \<open>glob\<close> and \<open>fs\<close>, and reports through \<open>core\<close>. A string is the sequence of the
  bytes of its UTF-8 encoding.
  A parsed JSON document is a value of \<open>json\<close>; the raw \<open>denyOverwrite\<close> parameter
  is an arbitrary JavaScript value.
\<close>

datatype json =
    JNull
  | JBool bool
  | JNum int
  | JStr string
  | JArr "json list"
  | JObj "(string \<times> json) list"

datatype js_value =
    JsUndefined
  | JsNull
  | JsBoolean bool
  | JsNumber int
  | JsString string

text \<open>A thrown error object: \<open>error.status\<close> (absent on a \<open>TypeError\<close>) and \<open>error.message\<close>.\<close>

datatype js_error = JsError (status: "int option") (message: string)

text \<open>
  The fields of an asset and of a release that the script reads. \<open>asset.id\<close>,
  \<open>asset.name\<close> and \<open>release.id\<close> are \<open>asset_id\<close>, \<open>asset_name\<close> and \<open>release_id\<close> here.
  The name of a release is \<open>null\<close> when the release has no title: \<open>None\<close>.
\<close>

record asset =
  asset_id :: int
  asset_name :: string
  browser_download_url :: string

record release =
  release_id :: int
  tag_name :: string
  name :: "string option"
  assets :: "asset list"
  draft :: bool

text \<open>\<open>context.ref\<close>, \<open>context.repo.owner\<close> and \<open>context.repo.repo\<close>.\<close>

record actions_context =
  ref :: string
  owner :: string
  repo :: string

record inputs =
  assetPathsInput :: string
  releaseTag :: string
  releaseName :: string
  denyOverwrite :: js_value

text \<open>
  Everything the script calls and does not define. The built-ins \<open>JSON.parse\<close>
  (\<open>Inl\<close> carries the message of the \<open>SyntaxError\<close>), \<open>JSON.stringify\<close>, the string
  conversion of a template literal and \<open>path.basename\<close> are parameters. The hosting
  service and the file system are a world \<open>'w\<close>: \<open>getReleaseByTag\<close>, \<open>listReleases\<close>,
  \<open>glob\<close>, \<open>statSync(...).isFile()\<close> and \<open>readFileSync\<close> read it, and each may throw;
  \<open>uploadReleaseAsset\<close> and \<open>deleteReleaseAsset\<close> also change it.
\<close>

record 'w env =
  JSON_parse :: "string \<Rightarrow> string + json"
  JSON_stringify :: "json \<Rightarrow> string"
  String_of :: "json \<Rightarrow> string"
  basename :: "string \<Rightarrow> string"
  getReleaseByTag :: "string \<Rightarrow> string \<Rightarrow> string \<Rightarrow> 'w \<Rightarrow> js_error + release"
  listReleases :: "string \<Rightarrow> string \<Rightarrow> nat \<Rightarrow> nat \<Rightarrow> 'w \<Rightarrow> js_error + release list"
  uploadReleaseAsset ::
    "string \<Rightarrow> string \<Rightarrow> int \<Rightarrow> string \<Rightarrow> string \<Rightarrow> 'w \<Rightarrow> (js_error + asset) \<times> 'w"
  deleteReleaseAsset :: "string \<Rightarrow> string \<Rightarrow> int \<Rightarrow> 'w \<Rightarrow> (js_error + unit) \<times> 'w"
  glob :: "json \<Rightarrow> 'w \<Rightarrow> js_error + string list"
  statSync_isFile :: "string \<Rightarrow> 'w \<Rightarrow> js_error + bool"
  readFileSync :: "string \<Rightarrow> 'w \<Rightarrow> js_error + string"

text \<open>
  What a run does that is visible from outside, in order: the calls on \<open>core\<close>, the
  requests to the hosting service and the reads of the file system. The calls on
  \<open>core\<close> do not throw, and \<open>core.summary\<close> is one event: its \<open>write()\<close> is not awaited.
\<close>

datatype event =
    Info string
  | Warning string
  | Error string
  | SetFailed string
  | SetOutput string string
  | Summary string string "string list"
  | CallGetReleaseByTag string string string
  | CallListReleases string string nat nat
  | CallUploadReleaseAsset string string int string string
  | CallDeleteReleaseAsset string string int
  | CallGlob json
  | CallStatSync string
  | CallReadFileSync string

text \<open>The promise the function returns is fulfilled (\<open>return\<close>, or the end) or rejected.\<close>

datatype outcome = Returned | Thrown js_error

section \<open>String helpers\<close>

definition js_startsWith :: "string \<Rightarrow> string \<Rightarrow> bool" where
  "js_startsWith s p = (take (length p) s = p)"

text \<open>
  \<open>String.prototype.trim\<close> removes the code points of \<open>WhiteSpace\<close> and of
  \<open>LineTerminator\<close> at both ends: U+0009 to U+000D, U+0020, U+00A0, U+1680, U+2000
  to U+200A, U+2028, U+2029, U+202F, U+205F, U+3000 and U+FEFF. These are their
  encodings.
\<close>

definition white_space :: "string list" where
  "white_space =
     map (\<lambda>c. [c]) [CHR 0x09, CHR 0x0A, CHR 0x0B, CHR 0x0C, CHR 0x0D, CHR 0x20] @
     [[CHR 0xC2, CHR 0xA0], [CHR 0xE1, CHR 0x9A, CHR 0x80]] @
     map (\<lambda>c. [CHR 0xE2, CHR 0x80, c])
       [CHR 0x80, CHR 0x81, CHR 0x82, CHR 0x83, CHR 0x84, CHR 0x85, CHR 0x86, CHR 0x87,
        CHR 0x88, CHR 0x89, CHR 0x8A, CHR 0xA8, CHR 0xA9, CHR 0xAF] @
     [[CHR 0xE2, CHR 0x81, CHR 0x9F], [CHR 0xE3, CHR 0x80, CHR 0x80],
      [CHR 0xEF, CHR 0xBB, CHR 0xBF]]"

text \<open>
  The number of bytes of the member of \<open>wss\<close> that \<open>s\<close> starts with, 0 when there is
  none; and \<open>s\<close> without the members of \<open>wss\<close> it starts with.
\<close>

definition space_at :: "string list \<Rightarrow> string \<Rightarrow> nat" where
  "space_at wss s =
     (case find (\<lambda>ws. js_startsWith s ws) wss of None \<Rightarrow> 0 | Some ws \<Rightarrow> length ws)"

fun strip :: "string list \<Rightarrow> string \<Rightarrow> string" where
  "strip wss [] = []"
| "strip wss (c # cs) =
     (case space_at wss (c # cs) of
        0 \<Rightarrow> c # cs
      | Suc n \<Rightarrow> strip wss (drop n cs))"

text \<open>At the end of the string the encodings are met last byte first.\<close>

definition js_trim :: "string \<Rightarrow> string" where
  "js_trim s = rev (strip (map rev white_space) (rev (strip white_space s)))"

text \<open>
  \<open>s.replace(pat, rep)\<close> with a string pattern: the first occurrence only. The
  replacement is taken as it is; the script replaces by the empty string.
\<close>

fun js_replace :: "string \<Rightarrow> string \<Rightarrow> string \<Rightarrow> string" where
  "js_replace [] pat rep = (if pat = [] then rep else [])"
| "js_replace (c # cs) pat rep =
     (if js_startsWith (c # cs) pat then rep @ drop (length pat) (c # cs)
      else c # js_replace cs pat rep)"

fun js_includes :: "string \<Rightarrow> string \<Rightarrow> bool" where
  "js_includes [] pat = (pat = [])"
| "js_includes (c # cs) pat = (js_startsWith (c # cs) pat \<or> js_includes cs pat)"

text \<open>A length inside a template literal: its decimal digits.\<close>

fun show_nat :: "nat \<Rightarrow> string" where
  "show_nat n =
     (if n < 10 then [char_of (48 + n)]
      else show_nat (n div 10) @ [char_of (48 + n mod 10)])"

declare show_nat.simps [simp del]

text \<open>A value inside a template literal: a string stands for itself.\<close>

fun template :: "'w env \<Rightarrow> json \<Rightarrow> string" where
  "template env (JStr s) = s"
| "template env v = String_of env v"

definition newline :: string where
  "newline = [CHR 0x0A]"

text \<open>The check mark and the cross mark of the messages, as UTF-8.\<close>

definition check_mark :: string where
  "check_mark = [CHR 0xE2, CHR 0x9C, CHR 0x85]"

definition cross_mark :: string where
  "cross_mark = [CHR 0xE2, CHR 0x9D, CHR 0x8C]"

section \<open>Parsing the inputs (lines 21--54)\<close>

text \<open>Line 22, computed before anything is checked.\<close>

definition denyOverwriteBool :: "js_value \<Rightarrow> bool" where
  "denyOverwriteBool v = (v = JsString ''true'' \<or> v = JsBoolean True)"

record parsed =
  assetPaths :: "json list"
  targetTag :: string
  trimmedReleaseName :: string

fun Array_isArray :: "json \<Rightarrow> bool" where
  "Array_isArray (JArr xs) = True"
| "Array_isArray v = False"

fun elements :: "json \<Rightarrow> json list" where
  "elements (JArr xs) = xs"
| "elements v = []"

text \<open>\<open>Inl\<close> carries the message given to \<open>core.setFailed\<close> before the \<open>return\<close>.\<close>

definition parse_inputs :: "'w env \<Rightarrow> actions_context \<Rightarrow> inputs \<Rightarrow> string + parsed" where
  "parse_inputs env ctx inp =
     (case JSON_parse env (assetPathsInput inp) of
        Inl msg \<Rightarrow> Inl (''Failed to parse asset_paths as JSON: '' @ msg)
      | Inr v \<Rightarrow>
          if \<not> Array_isArray v \<or> length (elements v) = 0
          then Inl ''asset_paths must be a non-empty JSON array''
          else
            let tag = js_trim (releaseTag inp);
                nm = js_trim (releaseName inp);
                ok = (\<lambda>t. Inr \<lparr>assetPaths = elements v, targetTag = t,
                                trimmedReleaseName = nm\<rparr>)
            in if tag = [] then
                 if js_startsWith (ref ctx) ''refs/tags/''
                 then ok (js_replace (ref ctx) ''refs/tags/'' [])
                 else if nm = []
                 then Inl ''No release_tag or release_name provided and workflow not triggered by tag push''
                 else ok tag
               else ok tag)"

text \<open>Lines 56--61: the two criteria are logged when present.\<close>

definition target_info :: "string \<Rightarrow> string \<Rightarrow> event list" where
  "target_info tag nm =
     (if tag \<noteq> [] then [Info (''Target release tag: '' @ tag)] else []) @
     (if nm \<noteq> [] then [Info (''Target release name: '' @ nm)] else [])"

section \<open>Finding the release (lines 63--176)\<close>

text \<open>
  Lines 69--101, the lookup by tag. \<open>Inl\<close> ends the run (\<open>return\<close> after
  \<open>core.setFailed\<close>, or an error other than 404 thrown on); \<open>Inr\<close> is the value of
  \<open>release\<close> afterwards, \<open>None\<close> when it is still unset.
\<close>

text \<open>\<open>release.name\<close> inside a template literal: \<open>null\<close> is written out.\<close>

definition show_name :: "release \<Rightarrow> string" where
  "show_name r = (case name r of None \<Rightarrow> ''null'' | Some s \<Rightarrow> s)"

definition mismatch_message :: "release \<Rightarrow> string \<Rightarrow> string" where
  "mismatch_message found nm =
     ''Release name mismatch: found '' @ [CHR 0x27] @ show_name found @ [CHR 0x27] @
     '' but expected '' @ [CHR 0x27] @ nm @ [CHR 0x27]"

definition lookup_by_tag ::
  "'w env \<Rightarrow> actions_context \<Rightarrow> string \<Rightarrow> string \<Rightarrow> 'w \<Rightarrow> (outcome + release option) \<times> event list"
where
  "lookup_by_tag env ctx tag nm w =
     (if tag \<noteq> [] then
        let evs = [Info (''Attempting to fetch release by tag: '' @ tag),
                   Info (''Repository: '' @ owner ctx @ ''/'' @ repo ctx),
                   CallGetReleaseByTag (owner ctx) (repo ctx) tag]
        in case getReleaseByTag env (owner ctx) (repo ctx) tag w of
             Inr found \<Rightarrow>
               let evs' = evs @ [Info (''Found release by tag: '' @ show_name found @
                                       '' ('' @ tag_name found @ '')'')]
               in if nm \<noteq> [] \<and> name found \<noteq> Some nm
                  then (Inl Returned, evs' @ [SetFailed (mismatch_message found nm)])
                  else (Inr (Some found), evs')
           | Inl error \<Rightarrow>
               if status error = Some 404
               then (Inr None,
                     evs @ [Info ''Release not found by tag API (might be draft), searching all releases...''])
               else (Inl (Thrown error), evs)
      else (Inr None, []))"

text \<open>Lines 124--132, the predicate given to \<open>releases.find\<close>.\<close>

definition matches :: "string \<Rightarrow> string \<Rightarrow> release \<Rightarrow> bool" where
  "matches tag nm r =
     (if tag \<noteq> [] \<and> nm \<noteq> [] then tag_name r = tag \<and> name r = Some nm
      else if tag \<noteq> [] then tag_name r = tag
      else name r = Some nm)"

text \<open>Lines 136--148.\<close>

definition found_message :: "string \<Rightarrow> string \<Rightarrow> release \<Rightarrow> string" where
  "found_message tag nm r =
     (if tag \<noteq> [] \<and> nm \<noteq> [] then ''Found release by tag and name: ''
      else if tag \<noteq> [] then ''Found release by tag: ''
      else ''Found release by name: '') @ show_name r @ '' ('' @ tag_name r @ '')''"

text \<open>Lines 161--173.\<close>

definition not_found_message :: "string \<Rightarrow> string \<Rightarrow> string" where
  "not_found_message tag nm =
     (if tag \<noteq> [] \<and> nm \<noteq> []
      then ''No release found with tag '' @ [CHR 0x27] @ tag @ [CHR 0x27] @
           '' and name '' @ [CHR 0x27] @ nm @ [CHR 0x27]
      else if tag \<noteq> [] then ''No release found with tag '' @ [CHR 0x27] @ tag @ [CHR 0x27]
      else ''No release found with name '' @ [CHR 0x27] @ nm @ [CHR 0x27])"

text \<open>
  Lines 112--158, the loop over the pages, from page \<open>page\<close> on. It ends when
  \<open>listReleases\<close> throws (\<open>Inl\<close>), at a match (\<open>Inr (Some r)\<close>) or at a page of fewer
  than 100 releases (\<open>Inr None\<close>). A service that keeps answering with full pages
  and no match keeps the loop running: the value is then \<open>None\<close>.
\<close>

partial_function (option) search_releases ::
  "'w env \<Rightarrow> actions_context \<Rightarrow> string \<Rightarrow> string \<Rightarrow> 'w \<Rightarrow> nat \<Rightarrow>
     ((js_error + release option) \<times> event list) option"
where
  "search_releases env ctx tag nm w page =
     (case listReleases env (owner ctx) (repo ctx) 100 page w of
        Inl error \<Rightarrow> Some (Inl error, [CallListReleases (owner ctx) (repo ctx) 100 page])
      | Inr releases \<Rightarrow>
          (case find (matches tag nm) releases of
             Some r \<Rightarrow>
               Some (Inr (Some r),
                     [CallListReleases (owner ctx) (repo ctx) 100 page,
                      Info (found_message tag nm r)])
           | None \<Rightarrow>
               if length releases < 100
               then Some (Inr None, [CallListReleases (owner ctx) (repo ctx) 100 page])
               else Option.bind (search_releases env ctx tag nm w (page + 1))
                      (\<lambda>(res, evs).
                         Some (res, CallListReleases (owner ctx) (repo ctx) 100 page # evs))))"

declare search_releases.simps [code]

definition resolve_release ::
  "'w env \<Rightarrow> actions_context \<Rightarrow> string \<Rightarrow> string \<Rightarrow> 'w \<Rightarrow>
     ((outcome + release option) \<times> event list) option"
where
  "resolve_release env ctx tag nm w =
     (case lookup_by_tag env ctx tag nm w of
        (Inl out, ev1) \<Rightarrow> Some (Inl out, ev1)
      | (Inr release, ev1) \<Rightarrow>
          if release = None \<and> (tag \<noteq> [] \<or> nm \<noteq> []) then
            Option.bind (search_releases env ctx tag nm w 1)
              (\<lambda>(res, ev2).
                 let evs = ev1 @ [Info ''Searching all releases (including drafts)...''] @ ev2
                 in case res of
                      Inl error \<Rightarrow> Some (Inl (Thrown error), evs)
                    | Inr (Some r) \<Rightarrow> Some (Inr (Some r), evs)
                    | Inr None \<Rightarrow>
                        Some (Inl Returned, evs @ [SetFailed (not_found_message tag nm)]))
          else Some (Inr release, ev1))"

section \<open>Collecting the files (lines 178--215)\<close>

text \<open>Lines 187--193: the matches that are regular files, unless \<open>statSync\<close> throws.\<close>

fun filter_files :: "'w env \<Rightarrow> 'w \<Rightarrow> string list \<Rightarrow> (js_error + string list) \<times> event list" where
  "filter_files env w [] = (Inr [], [])"
| "filter_files env w (m # ms) =
     (case statSync_isFile env m w of
        Inl e \<Rightarrow> (Inl e, [CallStatSync m])
      | Inr isFile \<Rightarrow>
          (case filter_files env w ms of
             (Inl e, evs) \<Rightarrow> (Inl e, CallStatSync m # evs)
           | (Inr files, evs) \<Rightarrow>
               (Inr (if isFile then m # files else files), CallStatSync m # evs)))"

text \<open>Lines 195--200: what is logged about one pattern; files are pushed when there are any.\<close>

definition match_report :: "'w env \<Rightarrow> json \<Rightarrow> string list \<Rightarrow> event" where
  "match_report env pattern files =
     (if length files = 0
      then Warning (''No files matched pattern: '' @ template env pattern)
      else Info (''Pattern '' @ [CHR 0x27] @ template env pattern @ [CHR 0x27] @
                 '' matched '' @ show_nat (length files) @ '' file(s)''))"

text \<open>Lines 180--201: the loop over the patterns; the result is \<open>filesToUpload\<close>.\<close>

fun collect_files :: "'w env \<Rightarrow> 'w \<Rightarrow> json list \<Rightarrow> (js_error + string list) \<times> event list" where
  "collect_files env w [] = (Inr [], [])"
| "collect_files env w (pattern # patterns) =
     (case glob env pattern w of
        Inl e \<Rightarrow> (Inl e, [CallGlob pattern])
      | Inr found \<Rightarrow>
          (case filter_files env w found of
             (Inl e, ev1) \<Rightarrow> (Inl e, CallGlob pattern # ev1)
           | (Inr files, ev1) \<Rightarrow>
               (case collect_files env w patterns of
                  (Inl e, ev2) \<Rightarrow>
                    (Inl e, CallGlob pattern # ev1 @ [match_report env pattern files] @ ev2)
                | (Inr rest, ev2) \<Rightarrow>
                    (Inr (files @ rest),
                     CallGlob pattern # ev1 @ [match_report env pattern files] @ ev2))))"

text \<open>
  Line 204, \<open>[...new Set(filesToUpload)]\<close>: a \<open>Set\<close> keeps its members in the order
  of their first insertion.
\<close>

definition set_add :: "'a list \<Rightarrow> 'a \<Rightarrow> 'a list" where
  "set_add seen x = (if x \<in> set seen then seen else seen @ [x])"

definition dedup :: "'a list \<Rightarrow> 'a list" where
  "dedup xs = foldl set_add [] xs"

text \<open>
  The contract of the collector in the words of the specification: the regular
  files among the matches of one pattern, and a list without its repetitions, each
  member kept where it first occurs.
\<close>

definition regular_files :: "'w env \<Rightarrow> 'w \<Rightarrow> json \<Rightarrow> string list" where
  "regular_files env w pattern =
     (case glob env pattern w of
        Inl e \<Rightarrow> []
      | Inr found \<Rightarrow> filter (\<lambda>m. statSync_isFile env m w = Inr True) found)"

primrec keep_first :: "'a list \<Rightarrow> 'a list" where
  "keep_first [] = []"
| "keep_first (x # xs) = x # filter (\<lambda>y. y \<noteq> x) (keep_first xs)"

section \<open>Uploading (lines 219--288)\<close>

text \<open>
  What reading a property of \<open>release\<close> throws when \<open>release\<close> was never assigned
  (an empty tag derived from the ref \<open>refs/tags/\<close> and no name).
\<close>

definition type_error :: "string \<Rightarrow> js_error" where
  "type_error prop =
     JsError None (''Cannot read properties of undefined (reading '' @ [CHR 0x27] @ prop @
                   [CHR 0x27] @ '')'')"

text \<open>The call of \<open>uploadReleaseAsset\<close> (lines 228--234 and 265--271).\<close>

definition upload_call ::
  "'w env \<Rightarrow> actions_context \<Rightarrow> release option \<Rightarrow> string \<Rightarrow> string \<Rightarrow> 'w \<Rightarrow>
     (js_error + asset) \<times> event list \<times> 'w"
where
  "upload_call env ctx release fileName fileContent w =
     (case release of
        None \<Rightarrow> (Inl (type_error ''id''), [], w)
      | Some r \<Rightarrow>
          (case uploadReleaseAsset env (owner ctx) (repo ctx) (release_id r) fileName fileContent w of
             (res, w') \<Rightarrow>
               (res,
                [CallUploadReleaseAsset (owner ctx) (repo ctx) (release_id r) fileName fileContent],
                w')))"

text \<open>
  Lines 253--278, the body of the inner \<open>try\<close>: the asset of that name in
  \<open>release.assets\<close> is deleted and the upload is made again; \<open>error\<close> is the conflict
  that led here, thrown again when no such asset is known.
\<close>

definition replace_asset ::
  "'w env \<Rightarrow> actions_context \<Rightarrow> release option \<Rightarrow> string \<Rightarrow> string \<Rightarrow> js_error \<Rightarrow> 'w \<Rightarrow>
     (js_error + asset) \<times> event list \<times> 'w"
where
  "replace_asset env ctx release fileName fileContent error w =
     (case release of
        None \<Rightarrow> (Inl (type_error ''assets''), [], w)
      | Some r \<Rightarrow>
          (case find (\<lambda>a. asset_name a = fileName) (assets r) of
             Some existingAsset \<Rightarrow>
               (case deleteReleaseAsset env (owner ctx) (repo ctx) (asset_id existingAsset) w of
                  (Inl e, w1) \<Rightarrow>
                    (Inl e,
                     [CallDeleteReleaseAsset (owner ctx) (repo ctx) (asset_id existingAsset)], w1)
                | (Inr u, w1) \<Rightarrow>
                    (case upload_call env ctx release fileName fileContent w1 of
                       (res, ev, w2) \<Rightarrow>
                         (res,
                          [CallDeleteReleaseAsset (owner ctx) (repo ctx) (asset_id existingAsset),
                           Info (''Deleted existing asset: '' @ fileName)] @ ev,
                          w2)))
           | None \<Rightarrow>
               (Inl error,
                [Error (''Asset '' @ fileName @ '' not found in release assets list'')], w)))"

definition conflict_message :: "string \<Rightarrow> string" where
  "conflict_message fileName =
     ''Error: Overwriting artifacts is not prohibited '' @ cross_mark @ newline @
     ''Asset '' @ [CHR 0x27] @ fileName @ [CHR 0x27] @ '' already exists in this release.'' @
     newline @
     ''Set '' @ [CHR 0x27] @ ''deny_overwrite: false'' @ [CHR 0x27] @
     '' to allow replacing existing assets.''"

definition uploaded :: "string \<Rightarrow> event" where
  "uploaded fileName = Info (check_mark @ '' Uploaded: '' @ fileName)"

text \<open>
  Lines 222--287, one turn of the loop: \<open>Inr url\<close> is the URL pushed on
  \<open>downloadUrls\<close>, \<open>Inl e\<close> the error thrown out of the loop.
\<close>

definition upload_file ::
  "'w env \<Rightarrow> actions_context \<Rightarrow> release option \<Rightarrow> bool \<Rightarrow> string \<Rightarrow> 'w \<Rightarrow>
     (js_error + string) \<times> event list \<times> 'w"
where
  "upload_file env ctx release deny filePath w =
     (let fileName = basename env filePath in
      case readFileSync env filePath w of
        Inl e \<Rightarrow> (Inl e, [CallReadFileSync filePath], w)
      | Inr fileContent \<Rightarrow>
          let ev0 = [CallReadFileSync filePath,
                     Info (''Uploading: '' @ fileName @ '' ('' @
                           show_nat (length fileContent) @ '' bytes)'')]
          in (case upload_call env ctx release fileName fileContent w of
               (Inr a, ev1, w1) \<Rightarrow>
                 (Inr (browser_download_url a), ev0 @ ev1 @ [uploaded fileName], w1)
             | (Inl error, ev1, w1) \<Rightarrow>
                 if status error = Some 422 \<and> js_includes (message error) ''already_exists''
                 then
                   if deny
                   then (Inl error, ev0 @ ev1 @ [SetFailed (conflict_message fileName)], w1)
                   else
                     (case replace_asset env ctx release fileName fileContent error w1 of
                        (Inr a, ev2, w2) \<Rightarrow>
                          (Inr (browser_download_url a),
                           ev0 @ ev1 @
                           [Warning (''Glob wildcard overwriting existing file '' @ fileName)] @
                           ev2 @ [uploaded fileName],
                           w2)
                      | (Inl retryError, ev2, w2) \<Rightarrow>
                          (Inl retryError,
                           ev0 @ ev1 @
                           [Warning (''Glob wildcard overwriting existing file '' @ fileName)] @
                           ev2 @
                           [Error (''Failed to replace '' @ fileName @ '': '' @
                                   message retryError)],
                           w2))
                 else
                   (Inl error,
                    ev0 @ ev1 @
                    [Error (''Failed to upload '' @ fileName @ '': '' @ message error)],
                    w1)))"

text \<open>
  Lines 220--288, the loop: the error thrown, if any, the value of \<open>downloadUrls\<close>
  when the loop is left, the events and the world.
\<close>

fun upload_files ::
  "'w env \<Rightarrow> actions_context \<Rightarrow> release option \<Rightarrow> bool \<Rightarrow> string list \<Rightarrow> 'w \<Rightarrow>
     js_error option \<times> string list \<times> event list \<times> 'w"
where
  "upload_files env ctx release deny [] w = (None, [], [], w)"
| "upload_files env ctx release deny (filePath # rest) w =
     (case upload_file env ctx release deny filePath w of
        (Inl e, ev, w1) \<Rightarrow> (Some e, [], ev, w1)
      | (Inr url, ev, w1) \<Rightarrow>
          (case upload_files env ctx release deny rest w1 of
             (thrown, urls, ev', w2) \<Rightarrow> (thrown, url # urls, ev @ ev', w2)))"

section \<open>Reporting (lines 290--302) and the whole run\<close>

definition report :: "'w env \<Rightarrow> release option \<Rightarrow> string list \<Rightarrow> outcome \<times> event list" where
  "report env release downloadUrls =
     (let evs = [SetOutput ''download_urls'' (JSON_stringify env (JArr (map JStr downloadUrls))),
                 Info (check_mark @ '' Successfully uploaded '' @
                       show_nat (length downloadUrls) @ '' asset(s)'')]
      in case release of
           None \<Rightarrow> (Thrown (type_error ''name''), evs)
         | Some r \<Rightarrow>
             (Returned,
              evs @ [Summary ''Release Assets Uploaded''
                       (''Release: '' @ show_name r @ '' ('' @ tag_name r @ '')'')
                       (map (\<lambda>url. ''['' @ basename env url @ ''](''  @ url @ '')'')
                          downloadUrls)]))"

text \<open>Lines 211--217, once the plan is known not to be empty.\<close>

definition plan_info :: "string list \<Rightarrow> string list \<Rightarrow> event list" where
  "plan_info filesToUpload uniqueFilesToUpload =
     (if length filesToUpload \<noteq> length uniqueFilesToUpload
      then [Warning (''Removed '' @
                     show_nat (length filesToUpload - length uniqueFilesToUpload) @
                     '' duplicate file(s) from overlapping glob patterns'')]
      else []) @
     [Info (''Total files to upload: '' @ show_nat (length uniqueFilesToUpload))]"

text \<open>Lines 203--302: from \<open>filesToUpload\<close> to the end of the function.\<close>

definition upload_and_report ::
  "'w env \<Rightarrow> actions_context \<Rightarrow> release option \<Rightarrow> bool \<Rightarrow> string list \<Rightarrow> 'w \<Rightarrow>
     outcome \<times> event list \<times> 'w"
where
  "upload_and_report env ctx release deny filesToUpload w =
     (let uniqueFilesToUpload = dedup filesToUpload in
      if length uniqueFilesToUpload = 0
      then (Returned, [SetFailed ''No files found to upload''], w)
      else
        (case upload_files env ctx release deny uniqueFilesToUpload w of
           (Some e, urls, ev1, w') \<Rightarrow>
             (Thrown e, plan_info filesToUpload uniqueFilesToUpload @ ev1, w')
         | (None, urls, ev1, w') \<Rightarrow>
             (case report env release urls of
                (out, ev2) \<Rightarrow>
                  (out, plan_info filesToUpload uniqueFilesToUpload @ ev1 @ ev2, w'))))"

text \<open>Lines 56--302: the function once its inputs are parsed.\<close>

definition run_parsed ::
  "'w env \<Rightarrow> actions_context \<Rightarrow> bool \<Rightarrow> parsed \<Rightarrow> 'w \<Rightarrow> (outcome \<times> event list \<times> 'w) option"
where
  "run_parsed env ctx deny p w =
     Option.bind (resolve_release env ctx (targetTag p) (trimmedReleaseName p) w)
       (\<lambda>(res, ev1).
          let ev0 = target_info (targetTag p) (trimmedReleaseName p) in
          case res of
            Inl out \<Rightarrow> Some (out, ev0 @ ev1, w)
          | Inr release \<Rightarrow>
              (case collect_files env w (assetPaths p) of
                 (Inl e, ev2) \<Rightarrow> Some (Thrown e, ev0 @ ev1 @ ev2, w)
               | (Inr filesToUpload, ev2) \<Rightarrow>
                   (case upload_and_report env ctx release deny filesToUpload w of
                      (out, ev3, w') \<Rightarrow> Some (out, ev0 @ ev1 @ ev2 @ ev3, w'))))"

text \<open>
  The exported function: how the promise ends, what was done on the way, and the
  world afterwards; \<open>None\<close> when the search of the releases never ends.
\<close>

definition run ::
  "'w env \<Rightarrow> actions_context \<Rightarrow> inputs \<Rightarrow> 'w \<Rightarrow> (outcome \<times> event list \<times> 'w) option"
where
  "run env ctx inp w =
     (case parse_inputs env ctx inp of
        Inl msg \<Rightarrow> Some (Returned, [SetFailed msg], w)
      | Inr p \<Rightarrow> run_parsed env ctx (denyOverwriteBool (denyOverwrite inp)) p w)"

section \<open>Reading a trace\<close>

fun is_remote_call :: "event \<Rightarrow> bool" where
  "is_remote_call (CallGetReleaseByTag ow rp tag) = True"
| "is_remote_call (CallListReleases ow rp per_page page) = True"
| "is_remote_call (CallUploadReleaseAsset ow rp rid fileName fileContent) = True"
| "is_remote_call (CallDeleteReleaseAsset ow rp aid) = True"
| "is_remote_call ev = False"

definition remote_calls :: "event list \<Rightarrow> event list" where
  "remote_calls evs = filter is_remote_call evs"

fun is_list_call :: "event \<Rightarrow> bool" where
  "is_list_call (CallListReleases ow rp per_page page) = True"
| "is_list_call ev = False"

fun is_upload_call :: "event \<Rightarrow> bool" where
  "is_upload_call (CallUploadReleaseAsset ow rp rid fileName fileContent) = True"
| "is_upload_call ev = False"

fun is_Info :: "event \<Rightarrow> bool" where
  "is_Info (Info m) = True"
| "is_Info ev = False"

fun is_read :: "event \<Rightarrow> bool" where
  "is_read (CallReadFileSync path) = True"
| "is_read ev = False"

fun is_SetOutput :: "event \<Rightarrow> bool" where
  "is_SetOutput (SetOutput k v) = True"
| "is_SetOutput ev = False"

fun is_SetFailed :: "event \<Rightarrow> bool" where
  "is_SetFailed (SetFailed m) = True"
| "is_SetFailed ev = False"

fun is_Warning :: "event \<Rightarrow> bool" where
  "is_Warning (Warning m) = True"
| "is_Warning ev = False"

fun is_CallGlob :: "event \<Rightarrow> bool" where
  "is_CallGlob (CallGlob pattern) = True"
| "is_CallGlob ev = False"

text \<open>
  The events of one turn of the upload loop up to the answer to its first
  request, and the warning that follows a conflict when overwriting is allowed.
\<close>

definition first_attempt ::
  "'w env \<Rightarrow> actions_context \<Rightarrow> release \<Rightarrow> string \<Rightarrow> string \<Rightarrow> event list" where
  "first_attempt env ctx r filePath fileContent =
     [CallReadFileSync filePath,
      Info (''Uploading: '' @ basename env filePath @ '' ('' @
            show_nat (length fileContent) @ '' bytes)''),
      CallUploadReleaseAsset (owner ctx) (repo ctx) (release_id r) (basename env filePath)
        fileContent]"

definition overwrite_warning :: "'w env \<Rightarrow> string \<Rightarrow> event" where
  "overwrite_warning env filePath =
     Warning (''Glob wildcard overwriting existing file '' @ basename env filePath)"

text \<open>An event that neither ends the run in failure, nor sets the output, nor is a request.\<close>

fun quiet :: "event \<Rightarrow> bool" where
  "quiet (SetFailed m) = False"
| "quiet (SetOutput k v) = False"
| "quiet ev = (\<not> is_remote_call ev)"

section \<open>A small hosting service and file system, to run the script on\<close>

text \<open>
  The releases of one repository in the order of the listing, drafts among them.
  The lookup by tag does not see drafts; an upload under a name the release
  already has is refused with status 422 and the code \<open>already_exists\<close>.
\<close>

record demo_world =
  releases :: "release list"
  next_id :: int

definition not_found :: js_error where
  "not_found = JsError (Some 404) ''Not Found''"

definition demo_getReleaseByTag ::
  "string \<Rightarrow> string \<Rightarrow> string \<Rightarrow> demo_world \<Rightarrow> js_error + release" where
  "demo_getReleaseByTag ow rp tag w =
     (case find (\<lambda>r. tag_name r = tag \<and> \<not> draft r) (releases w) of
        Some r \<Rightarrow> Inr r
      | None \<Rightarrow> Inl not_found)"

definition demo_listReleases ::
  "string \<Rightarrow> string \<Rightarrow> nat \<Rightarrow> nat \<Rightarrow> demo_world \<Rightarrow> js_error + release list" where
  "demo_listReleases ow rp per_page page w =
     Inr (take per_page (drop ((page - 1) * per_page) (releases w)))"

definition demo_uploadReleaseAsset ::
  "string \<Rightarrow> string \<Rightarrow> int \<Rightarrow> string \<Rightarrow> string \<Rightarrow> demo_world \<Rightarrow>
     (js_error + asset) \<times> demo_world" where
  "demo_uploadReleaseAsset ow rp rid fileName fileContent w =
     (case find (\<lambda>r. release_id r = rid) (releases w) of
        None \<Rightarrow> (Inl not_found, w)
      | Some r \<Rightarrow>
          if find (\<lambda>a. asset_name a = fileName) (assets r) \<noteq> None
          then (Inl (JsError (Some 422) ''Validation Failed: already_exists''), w)
          else
            let a = \<lparr>asset_id = next_id w, asset_name = fileName,
                     browser_download_url = ''https://host.test/download/'' @ fileName\<rparr>
            in (Inr a,
                \<lparr>releases = map (\<lambda>x. if release_id x = rid
                                       then x\<lparr>assets := assets x @ [a]\<rparr> else x) (releases w),
                 next_id = next_id w + 1\<rparr>))"

definition demo_deleteReleaseAsset ::
  "string \<Rightarrow> string \<Rightarrow> int \<Rightarrow> demo_world \<Rightarrow> (js_error + unit) \<times> demo_world" where
  "demo_deleteReleaseAsset ow rp aid w =
     (if find (\<lambda>a. asset_id a = aid) (concat (map assets (releases w))) = None
      then (Inl not_found, w)
      else (Inr (),
            w\<lparr>releases := map (\<lambda>x. x\<lparr>assets := filter (\<lambda>a. asset_id a \<noteq> aid) (assets x)\<rparr>)
                              (releases w)\<rparr>))"

text \<open>
  The working directory: two archives under \<open>dist\<close>, which is itself matched by
  the pattern \<open>dist*\<close>; nothing under \<open>missing\<close>.
\<close>

definition demo_glob :: "json \<Rightarrow> demo_world \<Rightarrow> js_error + string list" where
  "demo_glob pattern w =
     (case pattern of
        JStr s \<Rightarrow>
          if s = ''dist/*.tar.gz'' then Inr [''/w/dist/a.tar.gz'', ''/w/dist/b.tar.gz'']
          else if s = ''dist/a*'' then Inr [''/w/dist/a.tar.gz'']
          else if s = ''dist*'' then Inr [''/w/dist'']
          else Inr []
      | _ \<Rightarrow> Inl (JsError None ''patterns.split is not a function''))"

definition demo_isFile :: "string \<Rightarrow> demo_world \<Rightarrow> js_error + bool" where
  "demo_isFile path w =
     (if path = ''/w/dist/a.tar.gz'' \<or> path = ''/w/dist/b.tar.gz'' then Inr True
      else if path = ''/w/dist'' then Inr False
      else Inl (JsError None ''ENOENT: no such file or directory''))"

definition demo_readFileSync :: "string \<Rightarrow> demo_world \<Rightarrow> js_error + string" where
  "demo_readFileSync path w =
     (if path = ''/w/dist/a.tar.gz'' then Inr ''aaa''
      else if path = ''/w/dist/b.tar.gz'' then Inr ''bb''
      else Inl (JsError None ''ENOENT: no such file or directory''))"

text \<open>The part of a path after its last slash.\<close>

definition demo_basename :: "string \<Rightarrow> string" where
  "demo_basename path = rev (takeWhile (\<lambda>c. c \<noteq> CHR ''/'') (rev path))"

text \<open>The text of a JSON array of strings that need no escaping.\<close>

fun demo_join :: "string list \<Rightarrow> string" where
  "demo_join [] = []"
| "demo_join [s] = s"
| "demo_join (s # t # ts) = s @ '','' @ demo_join (t # ts)"

definition quoted :: "string \<Rightarrow> string" where
  "quoted s = [CHR 0x22] @ s @ [CHR 0x22]"

definition array_text :: "string list \<Rightarrow> string" where
  "array_text xs = ''['' @ demo_join (map quoted xs) @ '']''"

text \<open>\<open>JSON.parse\<close> on the documents used below; everything else is taken as malformed.\<close>

definition demo_parse :: "string \<Rightarrow> string + json" where
  "demo_parse s =
     (if s = array_text [''dist/*.tar.gz''] then Inr (JArr [JStr ''dist/*.tar.gz''])
      else if s = array_text [''missing/*.zip''] then Inr (JArr [JStr ''missing/*.zip''])
      else if s = array_text [''dist*'', ''missing/*.zip'']
      then Inr (JArr [JStr ''dist*'', JStr ''missing/*.zip''])
      else if s = array_text [''dist/*.tar.gz'', ''dist/a*'']
      then Inr (JArr [JStr ''dist/*.tar.gz'', JStr ''dist/a*''])
      else if s = ''[]'' then Inr (JArr [])
      else if s = ''{}'' then Inr (JObj [])
      else Inl ''Unexpected token'')"

text \<open>\<open>JSON.stringify\<close> on an array of strings that need no escaping.\<close>

fun demo_text :: "json \<Rightarrow> string" where
  "demo_text (JStr s) = s"
| "demo_text v = ''null''"

definition demo_stringify :: "json \<Rightarrow> string" where
  "demo_stringify v = array_text (map demo_text (elements v))"

definition demo_env :: "demo_world env" where
  "demo_env =
     \<lparr>JSON_parse = demo_parse, JSON_stringify = demo_stringify, String_of = demo_text,
      basename = demo_basename,
      getReleaseByTag = demo_getReleaseByTag, listReleases = demo_listReleases,
      uploadReleaseAsset = demo_uploadReleaseAsset,
      deleteReleaseAsset = demo_deleteReleaseAsset,
      glob = demo_glob, statSync_isFile = demo_isFile, readFileSync = demo_readFileSync\<rparr>"

definition demo_ctx :: actions_context where
  "demo_ctx = \<lparr>ref = ''refs/tags/v1.0.0'', owner = ''acme'', repo = ''tool''\<rparr>"

definition branch_ctx :: actions_context where
  "branch_ctx = \<lparr>ref = ''refs/heads/main'', owner = ''acme'', repo = ''tool''\<rparr>"

text \<open>A published release \<open>v1.0.0\<close> named \<open>Good Name\<close>, with no assets or with one.\<close>

definition good_release :: "asset list \<Rightarrow> release" where
  "good_release as =
     \<lparr>release_id = 7, tag_name = ''v1.0.0'', name = Some ''Good Name'', assets = as, draft = False\<rparr>"

definition old_asset :: asset where
  "old_asset = \<lparr>asset_id = 3, asset_name = ''a.tar.gz'',
                 browser_download_url = ''https://host.test/old/a.tar.gz''\<rparr>"

text \<open>The repository with that release only, before and after an earlier upload.\<close>

definition fresh_repo :: demo_world where
  "fresh_repo = \<lparr>releases = [good_release []], next_id = 10\<rparr>"

definition stocked_repo :: demo_world where
  "stocked_repo = \<lparr>releases = [good_release [old_asset]], next_id = 10\<rparr>"

text \<open>
  A draft \<open>v2.0.0\<close>; a draft that shares the tag \<open>v1.0.0\<close> under another name; and a
  repository whose first page of releases is full.
\<close>

definition draft_release :: release where
  "draft_release =
     \<lparr>release_id = 8, tag_name = ''v2.0.0'', name = Some ''Next'', assets = [], draft = True\<rparr>"

definition twin_release :: release where
  "twin_release =
     \<lparr>release_id = 9, tag_name = ''v1.0.0'', name = Some ''Bad Name'', assets = [], draft = True\<rparr>"

definition twin_repo :: demo_world where
  "twin_repo = \<lparr>releases = [good_release [], twin_release], next_id = 10\<rparr>"

definition long_repo :: demo_world where
  "long_repo = \<lparr>releases = replicate 100 (good_release []) @ [draft_release], next_id = 10\<rparr>"

text \<open>The release when \<open>b.tar.gz\<close> was uploaded before.\<close>

definition old_b_asset :: asset where
  "old_b_asset = \<lparr>asset_id = 4, asset_name = ''b.tar.gz'',
                   browser_download_url = ''https://host.test/old/b.tar.gz''\<rparr>"

definition late_repo :: demo_world where
  "late_repo = \<lparr>releases = [good_release [old_b_asset]], next_id = 10\<rparr>"

text \<open>A published release without a title, alone in its repository.\<close>

definition untitled_release :: release where
  "untitled_release =
     \<lparr>release_id = 5, tag_name = ''v0.9.0'', name = None, assets = [], draft = False\<rparr>"

definition untitled_repo :: demo_world where
  "untitled_repo = \<lparr>releases = [untitled_release], next_id = 10\<rparr>"

definition demo_inputs :: "string \<Rightarrow> string \<Rightarrow> string \<Rightarrow> js_value \<Rightarrow> inputs" where
  "demo_inputs paths tag nm deny =
     \<lparr>assetPathsInput = paths, releaseTag = tag, releaseName = nm, denyOverwrite = deny\<rparr>"

section \<open>Properties\<close>

subsection \<open>Input validation\<close>

lemma run_parse_failure:
  "parse_inputs env ctx inp = Inl msg \<Longrightarrow>
   run env ctx inp w = Some (Returned, [SetFailed msg], w)"
  by (simp add: run_def)

lemma parse_inputs_deny_irrelevant:
  "parse_inputs env ctx (inp\<lparr>denyOverwrite := v\<rparr>) = parse_inputs env ctx inp"
  by (simp add: parse_inputs_def Let_def split: sum.splits)

lemma nonempty_array_iff:
  "(Array_isArray v \<and> length (elements v) \<noteq> 0) = (\<exists>p ps. v = JArr (p # ps))"
  by (cases v) (auto simp: neq_Nil_conv)

text \<open>
  Claim C8. The inputs are rejected exactly when \<open>JSON.parse\<close> throws on the path
  patterns, or its value is not an array with at least one element, or the trimmed
  tag and the trimmed name are both empty and the ref does not start with
  \<open>refs/tags/\<close>. A rejected run consists of the one call of \<open>core.setFailed\<close>: no
  request is made to the hosting service and the world is unchanged.
\<close>

theorem invalid_input_iff:
  "((\<exists>msg. parse_inputs env ctx inp = Inl msg) \<longleftrightarrow>
      (\<exists>m. JSON_parse env (assetPathsInput inp) = Inl m) \<or>
      (\<exists>v. JSON_parse env (assetPathsInput inp) = Inr v \<and> \<not> (\<exists>p ps. v = JArr (p # ps))) \<or>
      (js_trim (releaseTag inp) = [] \<and> js_trim (releaseName inp) = [] \<and>
       \<not> js_startsWith (ref ctx) ''refs/tags/'')) \<and>
   (\<forall>msg. parse_inputs env ctx inp = Inl msg \<longrightarrow>
      run env ctx inp w = Some (Returned, [SetFailed msg], w) \<and>
      remote_calls [SetFailed msg] = [])"
proof (intro conjI allI impI)
  show "(\<exists>msg. parse_inputs env ctx inp = Inl msg) \<longleftrightarrow>
      (\<exists>m. JSON_parse env (assetPathsInput inp) = Inl m) \<or>
      (\<exists>v. JSON_parse env (assetPathsInput inp) = Inr v \<and> \<not> (\<exists>p ps. v = JArr (p # ps))) \<or>
      (js_trim (releaseTag inp) = [] \<and> js_trim (releaseName inp) = [] \<and>
       \<not> js_startsWith (ref ctx) ''refs/tags/'')"
  proof (cases "JSON_parse env (assetPathsInput inp)")
    case (Inl m)
    then show ?thesis by (simp add: parse_inputs_def)
  next
    case (Inr v)
    show ?thesis
    proof (cases "\<exists>p ps. v = JArr (p # ps)")
      case True
      then have "Array_isArray v \<and> length (elements v) \<noteq> 0" by auto
      with Inr True show ?thesis
        by (auto simp: parse_inputs_def Let_def)
    next
      case False
      then have "\<not> (Array_isArray v \<and> length (elements v) \<noteq> 0)"
        using nonempty_array_iff by blast
      with Inr False show ?thesis
        by (auto simp: parse_inputs_def Let_def)
    qed
  qed
next
  fix msg assume "parse_inputs env ctx inp = Inl msg"
  then show "run env ctx inp w = Some (Returned, [SetFailed msg], w)"
    by (rule run_parse_failure)
next
  fix msg show "remote_calls [SetFailed msg] = []" by (simp add: remote_calls_def)
qed

theorem invalid_input_iff_witness:
  "js_trim (releaseTag (demo_inputs (array_text [''dist/*.tar.gz'']) [CHR 0xC2, CHR 0xA0] ''''
                (JsString ''true''))) = [] \<and>
   js_trim (releaseName (demo_inputs (array_text [''dist/*.tar.gz'']) [CHR 0xC2, CHR 0xA0] ''''
                (JsString ''true''))) = [] \<and>
   \<not> js_startsWith (ref branch_ctx) ''refs/tags/'' \<and>
   parse_inputs demo_env branch_ctx
       (demo_inputs (array_text [''dist/*.tar.gz'']) [CHR 0xC2, CHR 0xA0] '''' (JsString ''true'')) =
     Inl ''No release_tag or release_name provided and workflow not triggered by tag push'' \<and>
   run demo_env branch_ctx
       (demo_inputs (array_text [''dist/*.tar.gz'']) [CHR 0xC2, CHR 0xA0] '''' (JsString ''true''))
       fresh_repo =
     Some (Returned,
           [SetFailed
              ''No release_tag or release_name provided and workflow not triggered by tag push''],
           fresh_repo)"
proof -
  let ?inp = "demo_inputs (array_text [''dist/*.tar.gz'']) [CHR 0xC2, CHR 0xA0] '''' (JsString ''true'')"
  have a: "js_trim (releaseTag ?inp) = []" by code_simp
  have b: "js_trim (releaseName ?inp) = []" by code_simp
  have c: "\<not> js_startsWith (ref branch_ctx) ''refs/tags/''" by code_simp
  from invalid_input_iff [of demo_env branch_ctx ?inp fresh_repo] a b c
  obtain msg where m: "parse_inputs demo_env branch_ctx ?inp = Inl msg"
    by blast
  moreover have p: "parse_inputs demo_env branch_ctx ?inp =
     Inl ''No release_tag or release_name provided and workflow not triggered by tag push''"
    by code_simp
  ultimately have
    "msg = ''No release_tag or release_name provided and workflow not triggered by tag push''"
    by simp
  with invalid_input_iff [of demo_env branch_ctx ?inp fresh_repo] m
  have "run demo_env branch_ctx ?inp fresh_repo =
     Some (Returned,
           [SetFailed
              ''No release_tag or release_name provided and workflow not triggered by tag push''],
           fresh_repo)"
    by blast
  with a b c p show ?thesis by blast
qed

subsection \<open>The overwrite flag\<close>

lemma run_deny_cong:
  "denyOverwriteBool v = denyOverwriteBool v' \<Longrightarrow>
   run env ctx (inp\<lparr>denyOverwrite := v\<rparr>) w = run env ctx (inp\<lparr>denyOverwrite := v'\<rparr>) w"
  by (simp add: run_def parse_inputs_deny_irrelevant split: sum.splits)

subsection \<open>Finding the release\<close>

lemma find_append_None:
  "find P xs = None \<Longrightarrow> find P (xs @ ys) = find P ys"
  by (induction xs) (auto split: if_splits)

lemma find_concat_None:
  "\<forall>x \<in> set xss. find P x = None \<Longrightarrow> find P (concat xss) = None"
  by (induction xss) (auto simp: find_append_None)

lemma lookup_by_tag_mismatch:
  assumes "tag \<noteq> []" "nm \<noteq> []"
    and "getReleaseByTag env (owner ctx) (repo ctx) tag w = Inr found"
    and "name found \<noteq> Some nm"
  shows "resolve_release env ctx tag nm w =
    Some (Inl Returned,
      [Info (''Attempting to fetch release by tag: '' @ tag),
       Info (''Repository: '' @ owner ctx @ ''/'' @ repo ctx),
       CallGetReleaseByTag (owner ctx) (repo ctx) tag,
       Info (''Found release by tag: '' @ show_name found @ '' ('' @ tag_name found @ '')''),
       SetFailed (mismatch_message found nm)])"
  using assms by (simp add: resolve_release_def lookup_by_tag_def)

lemma mismatch_not_not_found: "mismatch_message found nm \<noteq> not_found_message tag nm'"
  by (simp add: mismatch_message_def not_found_message_def)

lemma remote_calls_target_info [simp]: "remote_calls (target_info tag nm) = []"
  by (simp add: remote_calls_def target_info_def)

lemma remote_calls_append [simp]: "remote_calls (xs @ ys) = remote_calls xs @ remote_calls ys"
  by (simp add: remote_calls_def)

text \<open>
  Claim C4. When a tag and a name are given and the lookup by tag finds a release
  whose name is not the given one (after \<open>trim()\<close>; an untitled release has none), the run ends with \<open>core.setFailed\<close> and the
  mismatch message, which is never the not-found message. The only request made
  to the hosting service is that lookup: the releases are not listed, whatever a
  listing would contain.
\<close>

theorem name_mismatch_no_listing:
  assumes "parse_inputs env ctx inp = Inr p"
    and "targetTag p \<noteq> []" and "trimmedReleaseName p \<noteq> []"
    and "getReleaseByTag env (owner ctx) (repo ctx) (targetTag p) w = Inr found"
    and "name found \<noteq> Some (trimmedReleaseName p)"
  shows "\<exists>evs. run env ctx inp w =
           Some (Returned, evs @ [SetFailed (mismatch_message found (trimmedReleaseName p))], w) \<and>
         remote_calls evs = [CallGetReleaseByTag (owner ctx) (repo ctx) (targetTag p)] \<and>
         filter is_SetFailed evs = [] \<and>
         mismatch_message found (trimmedReleaseName p) \<noteq>
           not_found_message (targetTag p) (trimmedReleaseName p)"
proof -
  let ?evs = "target_info (targetTag p) (trimmedReleaseName p) @
      [Info (''Attempting to fetch release by tag: '' @ targetTag p),
       Info (''Repository: '' @ owner ctx @ ''/'' @ repo ctx),
       CallGetReleaseByTag (owner ctx) (repo ctx) (targetTag p),
       Info (''Found release by tag: '' @ show_name found @ '' ('' @ tag_name found @ '')'')]"
  have "run env ctx inp w =
      Some (Returned, ?evs @ [SetFailed (mismatch_message found (trimmedReleaseName p))], w)"
    using assms(1) lookup_by_tag_mismatch [OF assms(2-5)]
    by (simp add: run_def run_parsed_def)
  moreover have "remote_calls ?evs = [CallGetReleaseByTag (owner ctx) (repo ctx) (targetTag p)]"
    by (simp add: remote_calls_def target_info_def)
  moreover have "filter is_SetFailed ?evs = []"
    by (simp add: target_info_def)
  ultimately show ?thesis
    using mismatch_not_not_found by blast
qed


theorem name_mismatch_no_listing_witness:
  "find (matches ''v1.0.0'' ''Bad Name'') (releases twin_repo) = Some twin_release \<and>
   (\<exists>evs. run demo_env demo_ctx
             (demo_inputs (array_text [''dist/*.tar.gz'']) ''v1.0.0''
                (''Bad Name'' @ [CHR 0xC2, CHR 0xA0]) (JsString ''true'')) twin_repo =
           Some (Returned,
                 evs @ [SetFailed (mismatch_message (good_release []) ''Bad Name'')], twin_repo) \<and>
         remote_calls evs = [CallGetReleaseByTag ''acme'' ''tool'' ''v1.0.0'']) \<and>
   mismatch_message untitled_release ''Good Name'' =
     ''Release name mismatch: found '' @ [CHR 0x27] @ ''null'' @ [CHR 0x27] @
     '' but expected '' @ [CHR 0x27] @ ''Good Name'' @ [CHR 0x27] \<and>
   (\<exists>evs. run demo_env demo_ctx
             (demo_inputs (array_text [''dist/*.tar.gz'']) ''v0.9.0'' ''Good Name''
                (JsString ''true'')) untitled_repo =
           Some (Returned,
                 evs @ [SetFailed (mismatch_message untitled_release ''Good Name'')],
                 untitled_repo) \<and>
         remote_calls evs = [CallGetReleaseByTag ''acme'' ''tool'' ''v0.9.0''])"
proof -
  let ?inp = "demo_inputs (array_text [''dist/*.tar.gz'']) ''v1.0.0''
                (''Bad Name'' @ [CHR 0xC2, CHR 0xA0]) (JsString ''true'')"
  let ?p = "\<lparr>assetPaths = [JStr ''dist/*.tar.gz''], targetTag = ''v1.0.0'',
             trimmedReleaseName = ''Bad Name''\<rparr>"
  have listed: "find (matches ''v1.0.0'' ''Bad Name'') (releases twin_repo) = Some twin_release"
    by code_simp
  have parse: "parse_inputs demo_env demo_ctx ?inp = Inr ?p"
    by code_simp
  have tag: "targetTag ?p \<noteq> []" and nm: "trimmedReleaseName ?p \<noteq> []"
    by simp_all
  have found: "getReleaseByTag demo_env (owner demo_ctx) (repo demo_ctx) (targetTag ?p) twin_repo =
      Inr (good_release [])"
    by code_simp
  have differs: "name (good_release []) \<noteq> Some (trimmedReleaseName ?p)"
    by code_simp
  have ow: "owner demo_ctx = ''acme''" and rp: "repo demo_ctx = ''tool''"
    by (simp_all add: demo_ctx_def)
  from name_mismatch_no_listing [OF parse tag nm found differs]
  obtain evs where
    "run demo_env demo_ctx ?inp twin_repo =
       Some (Returned,
             evs @ [SetFailed (mismatch_message (good_release []) (trimmedReleaseName ?p))],
             twin_repo)"
    and "remote_calls evs =
       [CallGetReleaseByTag (owner demo_ctx) (repo demo_ctx) (targetTag ?p)]"
    by blast
  then have first: "\<exists>evs. run demo_env demo_ctx ?inp twin_repo =
       Some (Returned, evs @ [SetFailed (mismatch_message (good_release []) ''Bad Name'')],
             twin_repo) \<and>
     remote_calls evs = [CallGetReleaseByTag ''acme'' ''tool'' ''v1.0.0'']"
    by (simp add: ow rp)
  let ?inp' = "demo_inputs (array_text [''dist/*.tar.gz'']) ''v0.9.0'' ''Good Name''
                (JsString ''true'')"
  let ?p' = "\<lparr>assetPaths = [JStr ''dist/*.tar.gz''], targetTag = ''v0.9.0'',
             trimmedReleaseName = ''Good Name''\<rparr>"
  have parse': "parse_inputs demo_env demo_ctx ?inp' = Inr ?p'"
    by code_simp
  have tag': "targetTag ?p' \<noteq> []" and nm': "trimmedReleaseName ?p' \<noteq> []"
    by simp_all
  have found': "getReleaseByTag demo_env (owner demo_ctx) (repo demo_ctx) (targetTag ?p')
      untitled_repo = Inr untitled_release"
    by code_simp
  have differs': "name untitled_release \<noteq> Some (trimmedReleaseName ?p')"
    by code_simp
  have null: "mismatch_message untitled_release ''Good Name'' =
     ''Release name mismatch: found '' @ [CHR 0x27] @ ''null'' @ [CHR 0x27] @
     '' but expected '' @ [CHR 0x27] @ ''Good Name'' @ [CHR 0x27]"
    by code_simp
  from name_mismatch_no_listing [OF parse' tag' nm' found' differs']
  obtain evs' where
    "run demo_env demo_ctx ?inp' untitled_repo =
       Some (Returned,
             evs' @ [SetFailed (mismatch_message untitled_release (trimmedReleaseName ?p'))],
             untitled_repo)"
    and "remote_calls evs' =
       [CallGetReleaseByTag (owner demo_ctx) (repo demo_ctx) (targetTag ?p')]"
    by blast
  then have second: "\<exists>evs. run demo_env demo_ctx ?inp' untitled_repo =
       Some (Returned, evs @ [SetFailed (mismatch_message untitled_release ''Good Name'')],
             untitled_repo) \<and>
     remote_calls evs = [CallGetReleaseByTag ''acme'' ''tool'' ''v0.9.0'']"
    by (simp add: ow rp)
  from listed first null second show ?thesis by blast
qed

lemma search_releases_stop:
  assumes "listReleases env (owner ctx) (repo ctx) 100 p w = Inr rs"
    and "find (matches tag nm) rs \<noteq> None \<or> length rs < 100"
  shows "search_releases env ctx tag nm w p =
    Some (Inr (find (matches tag nm) rs),
          CallListReleases (owner ctx) (repo ctx) 100 p #
          (case find (matches tag nm) rs of
             Some r \<Rightarrow> [Info (found_message tag nm r)] | None \<Rightarrow> []))"
  using assms by (subst search_releases.simps) (auto split: option.splits)

lemma search_releases_step:
  assumes "listReleases env (owner ctx) (repo ctx) 100 p w = Inr rs"
    and "find (matches tag nm) rs = None" and "100 \<le> length rs"
  shows "search_releases env ctx tag nm w p =
    Option.bind (search_releases env ctx tag nm w (Suc p))
      (\<lambda>(res, evs). Some (res, CallListReleases (owner ctx) (repo ctx) 100 p # evs))"
  using assms by (subst search_releases.simps) simp

lemma search_releases_pages:
  assumes "\<forall>q. p \<le> q \<and> q \<le> p + n \<longrightarrow>
             listReleases env (owner ctx) (repo ctx) 100 q w = Inr (pages q)"
    and "\<forall>q. p \<le> q \<and> q < p + n \<longrightarrow>
             100 \<le> length (pages q) \<and> find (matches tag nm) (pages q) = None"
    and "find (matches tag nm) (pages (p + n)) \<noteq> None \<or> length (pages (p + n)) < 100"
  shows "search_releases env ctx tag nm w p =
    Some (Inr (find (matches tag nm) (pages (p + n))),
          map (CallListReleases (owner ctx) (repo ctx) 100) [p..<Suc (p + n)] @
          (case find (matches tag nm) (pages (p + n)) of
             Some r \<Rightarrow> [Info (found_message tag nm r)] | None \<Rightarrow> []))"
  using assms
proof (induction n arbitrary: p)
  case 0
  then show ?case
    using search_releases_stop [of env ctx p w "pages p" tag nm] by simp
next
  case (Suc n)
  have here: "listReleases env (owner ctx) (repo ctx) 100 p w = Inr (pages p)"
    and full: "100 \<le> length (pages p)" and none: "find (matches tag nm) (pages p) = None"
    using Suc.prems by simp_all
  have rest: "search_releases env ctx tag nm w (Suc p) =
    Some (Inr (find (matches tag nm) (pages (Suc p + n))),
          map (CallListReleases (owner ctx) (repo ctx) 100) [Suc p..<Suc (Suc p + n)] @
          (case find (matches tag nm) (pages (Suc p + n)) of
             Some r \<Rightarrow> [Info (found_message tag nm r)] | None \<Rightarrow> []))"
    using Suc.prems by (intro Suc.IH) simp_all
  have "[p..<Suc (p + Suc n)] = p # [Suc p..<Suc (Suc p + n)]"
    by (simp add: upt_conv_Cons)
  with search_releases_step [OF here none full] rest show ?case
    by simp
qed


lemma lookup_by_tag_miss:
  assumes "(tag \<noteq> [] \<and> (\<exists>e. getReleaseByTag env (owner ctx) (repo ctx) tag w = Inl e \<and>
                              status e = Some 404)) \<or> (tag = [] \<and> nm \<noteq> [])"
  shows "\<exists>evs. lookup_by_tag env ctx tag nm w = (Inr None, evs) \<and>
               filter is_list_call evs = [] \<and> filter is_SetFailed evs = []"
  using assms by (auto simp: lookup_by_tag_def)

lemma filter_list_calls_map [simp]:
  "filter is_list_call (map (CallListReleases ow rp n) ps) = map (CallListReleases ow rp n) ps"
  by (induction ps) simp_all

lemma filter_SetFailed_list_calls [simp]:
  "filter is_SetFailed (map (CallListReleases ow rp n) ps) = []"
  by (induction ps) simp_all

lemma find_pages:
  assumes "\<forall>q. 1 \<le> q \<and> q < k \<longrightarrow> find P (pages q) = None" and "1 \<le> k"
  shows "find P (concat (map pages [1..<Suc k])) = find P (pages k)"
proof -
  have "[1..<Suc k] = [1..<k] @ [k]"
    using assms(2) by simp
  moreover have "find P (concat (map pages [1..<k])) = None"
    using assms(1) by (intro find_concat_None) auto
  ultimately show ?thesis
    by (simp add: find_append_None)
qed

text \<open>
  Claim C1. Let the lookup by tag answer 404, or let there be a name and no tag.
  Let the service answer the pages \<open>1, \<dots>, k\<close> of 100 releases with \<open>pages 1, \<dots>,
  pages k\<close>, the pages before \<open>k\<close> full and without a match, page \<open>k\<close> with a match
  or with fewer than 100 releases. Then the search ends; exactly the pages
  \<open>1, \<dots>, k\<close> are requested, in this order; the release found is the first of the
  whole listing, drafts included, that matches the criterion (tag and name, tag
  alone or name alone, compared exactly); and when no release matches, the run
  ends with \<open>core.setFailed\<close> and a message that names the tag, the name or both.
\<close>

theorem fallback_listing:
  assumes parse: "parse_inputs env ctx inp = Inr p"
    and tag: "tag = targetTag p" and nm: "nm = trimmedReleaseName p"
    and miss: "(tag \<noteq> [] \<and> (\<exists>e. getReleaseByTag env (owner ctx) (repo ctx) tag w = Inl e \<and>
                                 status e = Some 404)) \<or> (tag = [] \<and> nm \<noteq> [])"
    and k: "1 \<le> k"
    and pages: "\<forall>q. 1 \<le> q \<and> q \<le> k \<longrightarrow>
                  listReleases env (owner ctx) (repo ctx) 100 q w = Inr (pages q)"
    and full: "\<forall>q. 1 \<le> q \<and> q < k \<longrightarrow>
                  100 \<le> length (pages q) \<and> find (matches tag nm) (pages q) = None"
    and stop: "find (matches tag nm) (pages k) \<noteq> None \<or> length (pages k) < 100"
  shows "\<exists>evs.
      resolve_release env ctx tag nm w =
        Some (case find (matches tag nm) (concat (map pages [1..<Suc k])) of
                Some r \<Rightarrow> Inr (Some r) | None \<Rightarrow> Inl Returned,
              evs) \<and>
      filter is_list_call evs = map (CallListReleases (owner ctx) (repo ctx) 100) [1..<Suc k] \<and>
      filter is_SetFailed evs =
        (case find (matches tag nm) (concat (map pages [1..<Suc k])) of
           Some r \<Rightarrow> [] | None \<Rightarrow> [SetFailed (not_found_message tag nm)]) \<and>
      (find (matches tag nm) (concat (map pages [1..<Suc k])) = None \<longrightarrow>
         run env ctx inp w = Some (Returned, target_info tag nm @ evs, w)) \<and>
      (\<forall>r. matches tag nm r =
         (if tag \<noteq> [] \<and> nm \<noteq> [] then tag_name r = tag \<and> name r = Some nm
          else if tag \<noteq> [] then tag_name r = tag else name r = Some nm)) \<and>
      not_found_message tag nm =
        (if tag \<noteq> [] \<and> nm \<noteq> []
         then ''No release found with tag '' @ [CHR 0x27] @ tag @ [CHR 0x27] @
              '' and name '' @ [CHR 0x27] @ nm @ [CHR 0x27]
         else if tag \<noteq> [] then ''No release found with tag '' @ [CHR 0x27] @ tag @ [CHR 0x27]
         else ''No release found with name '' @ [CHR 0x27] @ nm @ [CHR 0x27])"
proof -
  let ?m = "find (matches tag nm) (pages k)"
  let ?calls = "map (CallListReleases (owner ctx) (repo ctx) 100) [1..<Suc k]"
  from lookup_by_tag_miss [OF miss] obtain ev1 where
    look: "lookup_by_tag env ctx tag nm w = (Inr None, ev1)"
    and ev1: "filter is_list_call ev1 = []" "filter is_SetFailed ev1 = []"
    by blast
  have crit: "tag \<noteq> [] \<or> nm \<noteq> []"
    using miss by blast
  obtain n where n: "k = 1 + n"
    using k by (metis le_Suc_ex)
  have all: "find (matches tag nm) (concat (map pages [1..<Suc k])) = ?m"
    using full k by (intro find_pages) auto
  have search: "search_releases env ctx tag nm w 1 =
      Some (Inr ?m,
            ?calls @ (case ?m of Some r \<Rightarrow> [Info (found_message tag nm r)] | None \<Rightarrow> []))"
    using search_releases_pages [of 1 n env ctx w pages tag nm] pages full stop
    unfolding n by simp
  let ?ev2 = "?calls @ (case ?m of Some r \<Rightarrow> [Info (found_message tag nm r)] | None \<Rightarrow> [])"
  let ?evs = "ev1 @ [Info ''Searching all releases (including drafts)...''] @ ?ev2 @
      (case ?m of Some r \<Rightarrow> [] | None \<Rightarrow> [SetFailed (not_found_message tag nm)])"
  have res: "resolve_release env ctx tag nm w =
      Some (case ?m of Some r \<Rightarrow> Inr (Some r) | None \<Rightarrow> Inl Returned, ?evs)"
    using look crit search by (simp add: resolve_release_def split: option.splits)
  have lists: "filter is_list_call ?evs = ?calls"
    using ev1 by (simp split: option.splits)
  have fails: "filter is_SetFailed ?evs =
      (case ?m of Some r \<Rightarrow> [] | None \<Rightarrow> [SetFailed (not_found_message tag nm)])"
    using ev1 by (simp split: option.splits)
  have runs: "?m = None \<longrightarrow> run env ctx inp w = Some (Returned, target_info tag nm @ ?evs, w)"
    using parse res tag nm by (simp add: run_def run_parsed_def)
  have m: "\<forall>r. matches tag nm r =
         (if tag \<noteq> [] \<and> nm \<noteq> [] then tag_name r = tag \<and> name r = Some nm
          else if tag \<noteq> [] then tag_name r = tag else name r = Some nm)"
    by (simp add: matches_def)
  have msg: "not_found_message tag nm =
        (if tag \<noteq> [] \<and> nm \<noteq> []
         then ''No release found with tag '' @ [CHR 0x27] @ tag @ [CHR 0x27] @
              '' and name '' @ [CHR 0x27] @ nm @ [CHR 0x27]
         else if tag \<noteq> [] then ''No release found with tag '' @ [CHR 0x27] @ tag @ [CHR 0x27]
         else ''No release found with name '' @ [CHR 0x27] @ nm @ [CHR 0x27])"
    by (simp add: not_found_message_def)
  show ?thesis
    unfolding all by (intro exI [of _ ?evs] conjI res lists fails runs m msg)
qed


theorem fallback_listing_witness:
  "draft draft_release \<and>
   (\<exists>evs. resolve_release demo_env demo_ctx ''v2.0.0'' [] long_repo =
            Some (Inr (Some draft_release), evs) \<and>
          filter is_list_call evs =
            [CallListReleases ''acme'' ''tool'' 100 1, CallListReleases ''acme'' ''tool'' 100 2] \<and>
          filter is_SetFailed evs = []) \<and>
   parse_inputs demo_env branch_ctx
     (demo_inputs (array_text [''dist/*.tar.gz'']) [CHR 0xC2, CHR 0xA0] ''Good Name''
        (JsString ''true'')) =
     Inr \<lparr>assetPaths = [JStr ''dist/*.tar.gz''], targetTag = [],
          trimmedReleaseName = ''Good Name''\<rparr> \<and>
   (\<exists>evs. resolve_release demo_env branch_ctx [] ''Good Name'' fresh_repo =
            Some (Inr (Some (good_release [])), evs) \<and>
          filter is_list_call evs = [CallListReleases ''acme'' ''tool'' 100 1] \<and>
          filter is_SetFailed evs = [])"
proof -
  let ?inp = "demo_inputs (array_text [''dist/*.tar.gz'']) ''v2.0.0'' [] (JsString ''true'')"
  let ?p = "\<lparr>assetPaths = [JStr ''dist/*.tar.gz''], targetTag = ''v2.0.0'',
             trimmedReleaseName = []\<rparr>"
  let ?pages = "\<lambda>q::nat. if q = 1 then replicate 100 (good_release []) else [draft_release]"
  have ow: "owner demo_ctx = ''acme''" and rp: "repo demo_ctx = ''tool''"
    by (simp_all add: demo_ctx_def)
  have parse: "parse_inputs demo_env demo_ctx ?inp = Inr ?p"
    by code_simp
  have "getReleaseByTag demo_env ''acme'' ''tool'' ''v2.0.0'' long_repo = Inl not_found"
    by code_simp
  moreover have "status not_found = Some 404"
    by (simp add: not_found_def)
  ultimately have miss:
    "(''v2.0.0'' \<noteq> [] \<and>
      (\<exists>e. getReleaseByTag demo_env (owner demo_ctx) (repo demo_ctx) ''v2.0.0'' long_repo = Inl e \<and>
           status e = Some 404)) \<or> (''v2.0.0'' = [] \<and> ([]::string) \<noteq> [])"
    unfolding ow rp by blast
  have p1: "listReleases demo_env ''acme'' ''tool'' 100 1 long_repo =
      Inr (replicate 100 (good_release []))"
    by (simp add: demo_env_def demo_listReleases_def long_repo_def)
  have p2: "listReleases demo_env ''acme'' ''tool'' 100 2 long_repo = Inr [draft_release]"
    by (simp add: demo_env_def demo_listReleases_def long_repo_def)
  have pages: "\<forall>q. 1 \<le> q \<and> q \<le> 2 \<longrightarrow>
      listReleases demo_env (owner demo_ctx) (repo demo_ctx) 100 q long_repo = Inr (?pages q)"
  proof (intro allI impI)
    fix q :: nat assume "1 \<le> q \<and> q \<le> 2"
    then have "q = 1 \<or> q = 2" by arith
    then show "listReleases demo_env (owner demo_ctx) (repo demo_ctx) 100 q long_repo =
        Inr (?pages q)"
      using p1 p2 unfolding ow rp by auto
  qed
  have nomatch: "matches ''v2.0.0'' [] (good_release []) = False"
    by code_simp
  have full: "\<forall>q. 1 \<le> q \<and> q < 2 \<longrightarrow>
      100 \<le> length (?pages q) \<and> find (matches ''v2.0.0'' []) (?pages q) = None"
    by (auto simp: find_None_iff nomatch)
  have hit: "find (matches ''v2.0.0'' []) [draft_release] = Some draft_release"
    by code_simp
  then have stop: "find (matches ''v2.0.0'' []) (?pages 2) \<noteq> None \<or> length (?pages 2) < 100"
    by simp
  have 12: "[1..<Suc 2] = [1, 2]"
    by (simp add: upt_conv_Cons)
  have all: "find (matches ''v2.0.0'' []) (concat (map ?pages [1..<Suc 2])) = Some draft_release"
    unfolding 12 using hit by (simp add: find_append_None find_None_iff nomatch)
  from fallback_listing [of demo_env demo_ctx ?inp ?p "''v2.0.0''" "[]" long_repo 2 ?pages,
      OF parse _ _ miss _ pages full stop]
  obtain evs where
    "resolve_release demo_env demo_ctx ''v2.0.0'' [] long_repo =
       Some (case find (matches ''v2.0.0'' []) (concat (map ?pages [1..<Suc 2])) of
               Some r \<Rightarrow> Inr (Some r) | None \<Rightarrow> Inl Returned, evs)"
    and "filter is_list_call evs =
       map (CallListReleases (owner demo_ctx) (repo demo_ctx) 100) [1..<Suc 2]"
    and "filter is_SetFailed evs =
       (case find (matches ''v2.0.0'' []) (concat (map ?pages [1..<Suc 2])) of
          Some r \<Rightarrow> [] | None \<Rightarrow> [SetFailed (not_found_message ''v2.0.0'' [])])"
    by auto
  note this [unfolded all]
  then have first: "\<exists>evs. resolve_release demo_env demo_ctx ''v2.0.0'' [] long_repo =
            Some (Inr (Some draft_release), evs) \<and>
          filter is_list_call evs =
            [CallListReleases ''acme'' ''tool'' 100 1, CallListReleases ''acme'' ''tool'' 100 2] \<and>
          filter is_SetFailed evs = []"
    unfolding ow rp 12 by simp
  have d: "draft draft_release"
    by (simp add: draft_release_def)
  let ?inp' = "demo_inputs (array_text [''dist/*.tar.gz'']) [CHR 0xC2, CHR 0xA0] ''Good Name''
        (JsString ''true'')"
  let ?p' = "\<lparr>assetPaths = [JStr ''dist/*.tar.gz''], targetTag = [],
          trimmedReleaseName = ''Good Name''\<rparr>"
  let ?pages' = "\<lambda>q::nat. [good_release []]"
  have ow': "owner branch_ctx = ''acme''" and rp': "repo branch_ctx = ''tool''"
    by (simp_all add: branch_ctx_def)
  have parse': "parse_inputs demo_env branch_ctx ?inp' = Inr ?p'"
    by code_simp
  have miss': "(([]::string) \<noteq> [] \<and>
      (\<exists>e. getReleaseByTag demo_env (owner branch_ctx) (repo branch_ctx) [] fresh_repo = Inl e \<and>
           status e = Some 404)) \<or> (([]::string) = [] \<and> ''Good Name'' \<noteq> [])"
    by simp
  have p1': "listReleases demo_env ''acme'' ''tool'' 100 1 fresh_repo = Inr [good_release []]"
    by code_simp
  have pages': "\<forall>q. 1 \<le> q \<and> q \<le> 1 \<longrightarrow>
      listReleases demo_env (owner branch_ctx) (repo branch_ctx) 100 q fresh_repo =
        Inr (?pages' q)"
  proof (intro allI impI)
    fix q :: nat assume "1 \<le> q \<and> q \<le> 1"
    then have "q = 1" by arith
    then show "listReleases demo_env (owner branch_ctx) (repo branch_ctx) 100 q fresh_repo =
        Inr (?pages' q)"
      using p1' unfolding ow' rp' by simp
  qed
  have full': "\<forall>q. 1 \<le> q \<and> q < (1::nat) \<longrightarrow>
      100 \<le> length (?pages' q) \<and> find (matches [] ''Good Name'') (?pages' q) = None"
    by simp
  have hit': "find (matches [] ''Good Name'') [good_release []] = Some (good_release [])"
    by code_simp
  then have stop': "find (matches [] ''Good Name'') (?pages' 1) \<noteq> None \<or>
      length (?pages' 1) < 100"
    by simp
  have all': "find (matches [] ''Good Name'') (concat (map ?pages' [1..<Suc 1])) =
      Some (good_release [])"
    using hit' by simp
  from fallback_listing [of demo_env branch_ctx ?inp' ?p' "[]" "''Good Name''" fresh_repo 1
      ?pages', OF parse' _ _ miss' _ pages' full' stop']
  obtain evs' where
    "resolve_release demo_env branch_ctx [] ''Good Name'' fresh_repo =
       Some (case find (matches [] ''Good Name'') (concat (map ?pages' [1..<Suc 1])) of
               Some r \<Rightarrow> Inr (Some r) | None \<Rightarrow> Inl Returned, evs')"
    and "filter is_list_call evs' =
       map (CallListReleases (owner branch_ctx) (repo branch_ctx) 100) [1..<Suc 1]"
    and "filter is_SetFailed evs' =
       (case find (matches [] ''Good Name'') (concat (map ?pages' [1..<Suc 1])) of
          Some r \<Rightarrow> [] | None \<Rightarrow> [SetFailed (not_found_message [] ''Good Name'')])"
    by auto
  note this [unfolded all']
  then have second: "\<exists>evs. resolve_release demo_env branch_ctx [] ''Good Name'' fresh_repo =
            Some (Inr (Some (good_release [])), evs) \<and>
          filter is_list_call evs = [CallListReleases ''acme'' ''tool'' 100 1] \<and>
          filter is_SetFailed evs = []"
    unfolding ow' rp' by simp
  from d first parse' second show ?thesis by blast
qed

subsection \<open>Collecting the files\<close>

lemma filter_files_Inr:
  "filter_files env w ms = (Inr files, evs) \<Longrightarrow>
   files = filter (\<lambda>m. statSync_isFile env m w = Inr True) ms \<and> evs = map CallStatSync ms"
  by (induction ms arbitrary: files evs) (auto split: sum.splits prod.splits if_splits)

lemma filter_files_events:
  "filter_files env w ms = (res, evs) \<Longrightarrow> \<exists>ns. evs = map CallStatSync ns"
proof (induction ms arbitrary: res evs)
  case Nil
  then show ?case by simp
next
  case (Cons m ms)
  show ?case
  proof (cases "statSync_isFile env m w")
    case (Inl e)
    with Cons.prems have "evs = map CallStatSync [m]" by simp
    then show ?thesis by blast
  next
    case (Inr b)
    obtain res' evs' where r: "filter_files env w ms = (res', evs')"
      by (cases "filter_files env w ms")
    with Cons.IH obtain ns where "evs' = map CallStatSync ns" by blast
    with Cons.prems Inr r have "evs = map CallStatSync (m # ns)"
      by (auto split: sum.splits)
    then show ?thesis by blast
  qed
qed

lemma match_report_cases:
  "match_report env pattern files =
     (if files = [] then Warning (''No files matched pattern: '' @ template env pattern)
      else Info (''Pattern '' @ [CHR 0x27] @ template env pattern @ [CHR 0x27] @
                 '' matched '' @ show_nat (length files) @ '' file(s)''))"
  by (simp add: match_report_def)

lemma collect_files_quiet:
  "collect_files env w patterns = (res, evs) \<Longrightarrow> \<forall>ev \<in> set evs. quiet ev"
proof (induction patterns arbitrary: res evs)
  case Nil
  then show ?case by simp
next
  case (Cons pattern patterns)
  show ?case
  proof (cases "glob env pattern w")
    case (Inl e)
    with Cons.prems show ?thesis by auto
  next
    case (Inr found)
    obtain r1 ev1 where f: "filter_files env w found = (r1, ev1)"
      by (cases "filter_files env w found")
    from filter_files_events [OF f] have q1: "\<forall>ev \<in> set ev1. quiet ev" by auto
    obtain r2 ev2 where c: "collect_files env w patterns = (r2, ev2)"
      by (cases "collect_files env w patterns")
    from Cons.IH [OF c] have q2: "\<forall>ev \<in> set ev2. quiet ev" .
    from Cons.prems Inr f c q1 q2 show ?thesis
      by (auto simp: match_report_cases split: sum.splits if_splits)
  qed
qed

lemma collect_files_Inr:
  "collect_files env w patterns = (Inr files, evs) \<Longrightarrow>
   files = concat (map (regular_files env w) patterns) \<and>
   filter is_CallGlob evs = map CallGlob patterns \<and>
   filter is_Warning evs =
     map (\<lambda>pattern. Warning (''No files matched pattern: '' @ template env pattern))
       (filter (\<lambda>pattern. regular_files env w pattern = []) patterns)"
proof (induction patterns arbitrary: files evs)
  case Nil
  then show ?case by simp
next
  case (Cons pattern patterns)
  from Cons.prems obtain found where g: "glob env pattern w = Inr found"
    by (auto split: sum.splits)
  from Cons.prems g obtain fs ev1 where f: "filter_files env w found = (Inr fs, ev1)"
    by (auto split: sum.splits prod.splits)
  from Cons.prems g f obtain rest ev2 where c: "collect_files env w patterns = (Inr rest, ev2)"
    by (auto split: sum.splits prod.splits)
  from filter_files_Inr [OF f] have fs: "fs = regular_files env w pattern"
    and ev1: "ev1 = map CallStatSync found"
    by (simp_all add: regular_files_def g)
  have stat: "filter is_CallGlob (map CallStatSync found) = []"
    "filter is_Warning (map CallStatSync found) = []"
    by (induction found) simp_all
  from Cons.prems g f c have files: "files = fs @ rest"
    and evs: "evs = CallGlob pattern # ev1 @ [match_report env pattern fs] @ ev2"
    by simp_all
  from Cons.IH [OF c] files evs fs ev1 stat show ?case
    by (simp add: match_report_cases)
qed

lemma foldl_set_add:
  "foldl set_add acc xs = acc @ filter (\<lambda>x. x \<notin> set acc) (keep_first xs)"
proof (induction xs arbitrary: acc)
  case Nil
  then show ?case by simp
next
  case (Cons x xs)
  show ?case
  proof (cases "x \<in> set acc")
    case True
    then have "filter (\<lambda>y. y \<notin> set acc) (filter (\<lambda>y. y \<noteq> x) (keep_first xs)) =
        filter (\<lambda>y. y \<notin> set acc) (keep_first xs)"
      by (auto intro: filter_cong)
    with True Cons.IH [of acc] show ?thesis
      by (simp add: set_add_def)
  next
    case False
    have "filter (\<lambda>y. y \<notin> set (acc @ [x])) (keep_first xs) =
        filter (\<lambda>y. y \<notin> set acc) (filter (\<lambda>y. y \<noteq> x) (keep_first xs))"
      by (auto intro: filter_cong)
    with False Cons.IH [of "acc @ [x]"] show ?thesis
      by (simp add: set_add_def)
  qed
qed

lemma dedup_keep_first: "dedup xs = keep_first xs"
  by (simp add: dedup_def foldl_set_add)

lemma set_keep_first [simp]: "set (keep_first xs) = set xs"
  by (induction xs) auto

lemma distinct_keep_first [simp]: "distinct (keep_first xs)"
  by (induction xs) auto

lemma keep_first_Nil [simp]: "keep_first xs = [] \<longleftrightarrow> xs = []"
  by (cases xs) simp_all

text \<open>
  Claim C5. When the collector ends without an error, \<open>filesToUpload\<close> is the
  concatenation, in the order of the patterns, of the regular files among the
  matches of each pattern. The plan \<open>dedup filesToUpload\<close> has the same members,
  none twice, each where it first occurred, and every member was reported a regular
  file by \<open>statSync\<close>: a matched directory is never in it.
\<close>

theorem collector_output:
  assumes "collect_files env w patterns = (Inr filesToUpload, evs)"
  shows "filesToUpload = concat (map (regular_files env w) patterns) \<and>
         dedup filesToUpload = keep_first filesToUpload \<and>
         distinct (dedup filesToUpload) \<and>
         set (dedup filesToUpload) = set filesToUpload \<and>
         (\<forall>f \<in> set (dedup filesToUpload). statSync_isFile env f w = Inr True)"
proof -
  from collect_files_Inr [OF assms]
  have files: "filesToUpload = concat (map (regular_files env w) patterns)"
    by blast
  have "\<forall>f \<in> set (concat (map (regular_files env w) patterns)).
          statSync_isFile env f w = Inr True"
    by (auto simp: regular_files_def split: sum.splits)
  with files show ?thesis
    by (simp add: dedup_keep_first)
qed

theorem collector_output_witness:
  "fst (collect_files demo_env fresh_repo
          [JStr ''dist*'', JStr ''dist/*.tar.gz'', JStr ''dist/a*'']) =
     Inr [''/w/dist/a.tar.gz'', ''/w/dist/b.tar.gz'', ''/w/dist/a.tar.gz''] \<and>
   dedup [''/w/dist/a.tar.gz'', ''/w/dist/b.tar.gz'', ''/w/dist/a.tar.gz''] =
     [''/w/dist/a.tar.gz'', ''/w/dist/b.tar.gz''] \<and>
   distinct (dedup [''/w/dist/a.tar.gz'', ''/w/dist/b.tar.gz'', ''/w/dist/a.tar.gz'']) \<and>
   glob demo_env (JStr ''dist*'') fresh_repo = Inr [''/w/dist''] \<and>
   statSync_isFile demo_env ''/w/dist'' fresh_repo = Inr False \<and>
   ''/w/dist'' \<notin> set (dedup [''/w/dist/a.tar.gz'', ''/w/dist/b.tar.gz'', ''/w/dist/a.tar.gz''])"
proof -
  let ?pats = "[JStr ''dist*'', JStr ''dist/*.tar.gz'', JStr ''dist/a*'']"
  let ?files = "[''/w/dist/a.tar.gz'', ''/w/dist/b.tar.gz'', ''/w/dist/a.tar.gz'']"
  have f: "fst (collect_files demo_env fresh_repo ?pats) = Inr ?files"
    by code_simp
  then have c: "collect_files demo_env fresh_repo ?pats =
      (Inr ?files, snd (collect_files demo_env fresh_repo ?pats))"
    by (simp add: prod_eq_iff)
  have d: "dedup ?files = [''/w/dist/a.tar.gz'', ''/w/dist/b.tar.gz'']"
    by code_simp
  have g: "glob demo_env (JStr ''dist*'') fresh_repo = Inr [''/w/dist'']"
    by code_simp
  have s: "statSync_isFile demo_env ''/w/dist'' fresh_repo = Inr False"
    by code_simp
  from collector_output [OF c]
  have "distinct (dedup ?files)"
    and "\<forall>f \<in> set (dedup ?files). statSync_isFile demo_env f fresh_repo = Inr True"
    by blast+
  with s have "distinct (dedup ?files)" and "''/w/dist'' \<notin> set (dedup ?files)"
    by auto
  with f d g s show ?thesis by blast
qed

subsection \<open>What each phase may add to the trace\<close>

lemma lookup_by_tag_events:
  assumes "lookup_by_tag env ctx tag nm w = (res, evs)"
  shows "(\<forall>k v. SetOutput k v \<notin> set evs) \<and>
         (\<forall>m. SetFailed m \<in> set evs \<longrightarrow>
               res = Inl Returned \<and> (\<exists>found. m = mismatch_message found nm)) \<and>
         (res = Inl Returned \<longrightarrow> (\<exists>m. SetFailed m \<in> set evs)) \<and>
         (\<forall>ev \<in> set evs. \<not> is_upload_call ev)"
  using assms
  by (auto simp: lookup_by_tag_def Let_def split: if_splits sum.splits)

lemma search_releases_events:
  assumes "search_releases env ctx tag nm w p = Some y"
  shows "\<forall>ev \<in> set (snd y). is_list_call ev \<or> is_Info ev"
proof (rule search_releases.raw_induct
    [where P = "\<lambda>env ctx tag nm w p y. \<forall>ev \<in> set (snd y). is_list_call ev \<or> is_Info ev",
     OF _ assms], goal_cases)
  case step: (1 search env ctx tag nm w p y)
  note prems = step(2) and IH = step(1)
  show ?case
  proof (cases "listReleases env (owner ctx) (repo ctx) 100 p w")
    case (Inl e)
    with prems show ?thesis by auto
  next
    case (Inr rs)
    show ?thesis
    proof (cases "find (matches tag nm) rs")
      case (Some r)
      with prems Inr show ?thesis by auto
    next
      case None
      show ?thesis
      proof (cases "length rs < 100")
        case True
        with prems Inr None show ?thesis by auto
      next
        case False
        with prems Inr None obtain y' where
          rec: "search env ctx tag nm w (p + 1) = Some y'"
          and y: "y = (fst y', CallListReleases (owner ctx) (repo ctx) 100 p # snd y')"
          by (auto simp: bind_eq_Some_conv split: prod.splits)
        from IH [OF rec] y show ?thesis by simp
      qed
    qed
  qed
qed

lemma resolve_release_events:
  assumes "resolve_release env ctx tag nm w = Some (res, evs)"
  shows "(\<forall>k v. SetOutput k v \<notin> set evs) \<and>
         (\<forall>m. SetFailed m \<in> set evs \<longrightarrow>
               res = Inl Returned \<and>
               ((\<exists>found. m = mismatch_message found nm) \<or> m = not_found_message tag nm)) \<and>
         (res = Inl Returned \<longrightarrow> (\<exists>m. SetFailed m \<in> set evs)) \<and>
         (\<forall>ev \<in> set evs. \<not> is_upload_call ev)"
proof -
  obtain r1 ev1 where look: "lookup_by_tag env ctx tag nm w = (r1, ev1)"
    by (cases "lookup_by_tag env ctx tag nm w")
  note l = lookup_by_tag_events [OF look]
  show ?thesis
  proof (cases "\<exists>rel. r1 = Inr rel \<and> rel = None \<and> (tag \<noteq> [] \<or> nm \<noteq> [])")
    case False
    with assms look have "res = r1 \<and> evs = ev1"
      by (auto simp: resolve_release_def split: sum.splits if_splits)
    with l show ?thesis by blast
  next
    case True
    with assms look obtain r2 ev2 where
      search: "search_releases env ctx tag nm w 1 = Some (r2, ev2)"
      and rest: "(let evs = ev1 @ [Info ''Searching all releases (including drafts)...''] @ ev2
                 in case r2 of
                      Inl error \<Rightarrow> Some (Inl (Thrown error), evs)
                    | Inr (Some r) \<Rightarrow> Some (Inr (Some r), evs)
                    | Inr None \<Rightarrow>
                        Some (Inl Returned, evs @ [SetFailed (not_found_message tag nm)])) =
                 Some (res, evs)"
      by (auto simp: resolve_release_def bind_eq_Some_conv)
    from search_releases_events [OF search]
    have s: "\<forall>ev \<in> set ev2. is_list_call ev \<or> is_Info ev" by simp
    have s1: "\<And>k v. SetOutput k v \<notin> set ev2" "\<And>m. SetFailed m \<notin> set ev2"
      "\<forall>ev \<in> set ev2. \<not> is_upload_call ev"
      using s by (force, force, (metis is_Info.elims(2) is_list_call.elims(2) is_upload_call.simps))
    from True l have l1: "\<And>m. SetFailed m \<notin> set ev1"
      by auto
    from rest l l1 s1 show ?thesis
      by (auto simp: Let_def split: sum.splits option.splits)
  qed
qed

lemma upload_call_events:
  "upload_call env ctx release fileName fileContent w = (res, evs, w') \<Longrightarrow>
   \<forall>ev \<in> set evs. is_upload_call ev"
  by (auto simp: upload_call_def split: option.splits prod.splits)

lemma upload_call_None:
  "upload_call env ctx None fileName fileContent w = (Inl (type_error ''id''), [], w)"
  by (simp add: upload_call_def)

lemma upload_call_verdict:
  "upload_call env ctx release fileName fileContent w = (res, evs, w') \<Longrightarrow> ev \<in> set evs \<Longrightarrow>
   \<not> is_SetFailed ev \<and> \<not> is_SetOutput ev"
  by (auto simp: upload_call_def split: option.splits prod.splits)

lemma replace_asset_events:
  "replace_asset env ctx release fileName fileContent error w = (res, evs, w') \<Longrightarrow>
   \<forall>ev \<in> set evs. \<not> is_SetFailed ev \<and> \<not> is_SetOutput ev"
  by (auto simp: replace_asset_def split: option.splits prod.splits sum.splits
           dest: upload_call_verdict)

lemma upload_file_events:
  assumes "upload_file env ctx release deny path w = (res, evs, w')"
  shows "(\<forall>k v. SetOutput k v \<notin> set evs) \<and>
         (\<forall>m. SetFailed m \<in> set evs \<longrightarrow>
               (\<exists>e. res = Inl e) \<and> deny \<and> m = conflict_message (basename env path))"
proof (cases "readFileSync env path w")
  case (Inl e)
  with assms have "res = Inl e" and "evs = [CallReadFileSync path]"
    by (simp_all add: upload_file_def)
  then show ?thesis by simp
next
  case (Inr content)
  obtain r1 ev1 w1 where up: "upload_call env ctx release (basename env path) content w = (r1, ev1, w1)"
    by (cases "upload_call env ctx release (basename env path) content w")
  from upload_call_events [OF up]
  have e1: "\<And>k v. SetOutput k v \<notin> set ev1" "\<And>m. SetFailed m \<notin> set ev1"
    by force+
  show ?thesis
  proof (cases r1)
    case a: (Inr a)
    with assms Inr up e1 show ?thesis
      by (auto simp: upload_file_def Let_def uploaded_def)
  next
    case err: (Inl error)
    obtain r2 ev2 w2 where
      rep: "replace_asset env ctx release (basename env path) content error w1 = (r2, ev2, w2)"
      by (cases "replace_asset env ctx release (basename env path) content error w1")
    from replace_asset_events [OF rep]
    have e2: "\<And>k v. SetOutput k v \<notin> set ev2" "\<And>m. SetFailed m \<notin> set ev2"
      by force+
    from assms Inr up err rep e1 e2 show ?thesis
      by (auto simp: upload_file_def Let_def uploaded_def split: if_splits sum.splits)
  qed
qed

lemma upload_file_no_release:
  assumes "upload_file env ctx None deny path w = (res, evs, w')"
  shows "\<exists>e. res = Inl e"
proof (cases "readFileSync env path w")
  case (Inl e)
  with assms have "res = Inl e"
    by (simp add: upload_file_def)
  then show ?thesis by blast
next
  case (Inr content)
  with assms show ?thesis
    by (auto simp: upload_file_def Let_def upload_call_None replace_asset_def
             split: if_splits)
qed

lemma upload_files_events:
  assumes "upload_files env ctx release deny files w = (thrown, urls, evs, w')"
  shows "(\<forall>k v. SetOutput k v \<notin> set evs) \<and>
         (\<forall>m. SetFailed m \<in> set evs \<longrightarrow>
               thrown \<noteq> None \<and> deny \<and> (\<exists>f \<in> set files. m = conflict_message (basename env f))) \<and>
         (thrown = None \<longrightarrow> length urls = length files)"
  using assms
proof (induction files arbitrary: w thrown urls evs w')
  case Nil
  then show ?case by simp
next
  case (Cons f fs)
  obtain r1 ev1 w1 where one: "upload_file env ctx release deny f w = (r1, ev1, w1)"
    by (cases "upload_file env ctx release deny f w")
  note e1 = upload_file_events [OF one]
  show ?case
  proof (cases r1)
    case (Inl e)
    with Cons.prems one have "thrown = Some e" "evs = ev1"
      by simp_all
    with e1 show ?thesis by auto
  next
    case (Inr url)
    obtain t2 us2 ev2 w2 where rest: "upload_files env ctx release deny fs w1 = (t2, us2, ev2, w2)"
      by (cases "upload_files env ctx release deny fs w1")
    from Cons.prems one Inr rest
    have eq: "thrown = t2" "urls = url # us2" "evs = ev1 @ ev2"
      by simp_all
    from e1 Inr have "\<And>m. SetFailed m \<notin> set ev1" by auto
    with Cons.IH [OF rest] e1 eq show ?thesis by auto
  qed
qed

lemma upload_files_no_release:
  assumes "upload_files env ctx None deny (f # fs) w = (thrown, urls, evs, w')"
  shows "thrown \<noteq> None"
proof -
  obtain r1 ev1 w1 where one: "upload_file env ctx None deny f w = (r1, ev1, w1)"
    by (cases "upload_file env ctx None deny f w")
  from upload_file_no_release [OF one] obtain e where "r1 = Inl e" by blast
  with assms one show ?thesis by auto
qed

lemma upload_files_append:
  "upload_files env ctx release deny (pre @ post) w =
     (case upload_files env ctx release deny pre w of
        (Some e, urls, ev, w1) \<Rightarrow> (Some e, urls, ev, w1)
      | (None, urls, ev, w1) \<Rightarrow>
          (case upload_files env ctx release deny post w1 of
             (thrown, urls', ev', w2) \<Rightarrow> (thrown, urls @ urls', ev @ ev', w2)))"
proof (induction pre arbitrary: w)
  case Nil
  then show ?case by (simp split: prod.splits)
next
  case (Cons f fs)
  show ?case
    by (simp add: Cons.IH split: prod.splits sum.splits option.splits)
qed

lemma report_Some:
  "report env (Some r) urls =
     (Returned,
      [SetOutput ''download_urls'' (JSON_stringify env (JArr (map JStr urls))),
       Info (check_mark @ '' Successfully uploaded '' @ show_nat (length urls) @ '' asset(s)''),
       Summary ''Release Assets Uploaded''
         (''Release: '' @ show_name r @ '' ('' @ tag_name r @ '')'')
         (map (\<lambda>url. ''['' @ basename env url @ ''](''  @ url @ '')'') urls)])"
  by (simp add: report_def)

lemma plan_info_quiet: "\<forall>ev \<in> set (plan_info xs ys). quiet ev"
  by (simp add: plan_info_def)

text \<open>What the last phase can do.\<close>

lemma upload_and_report_cases:
  assumes "upload_and_report env ctx release deny filesToUpload w = (out, evs, w')"
  obtains
    (empty) "dedup filesToUpload = []" "out = Returned"
      "evs = [SetFailed ''No files found to upload'']" "w' = w"
  | (thrown) e urls ev1 where "dedup filesToUpload \<noteq> []"
      "upload_files env ctx release deny (dedup filesToUpload) w = (Some e, urls, ev1, w')"
      "out = Thrown e" "evs = plan_info filesToUpload (dedup filesToUpload) @ ev1"
  | (finished) r urls ev1 where "dedup filesToUpload \<noteq> []" "release = Some r"
      "upload_files env ctx release deny (dedup filesToUpload) w = (None, urls, ev1, w')"
      "out = Returned"
      "evs = plan_info filesToUpload (dedup filesToUpload) @ ev1 @ snd (report env (Some r) urls)"
proof (cases "dedup filesToUpload = []")
  case True
  with assms empty show ?thesis
    by (simp add: upload_and_report_def)
next
  case False
  obtain t urls ev1 w1 where
    up: "upload_files env ctx release deny (dedup filesToUpload) w = (t, urls, ev1, w1)"
    by (cases "upload_files env ctx release deny (dedup filesToUpload) w")
  show ?thesis
  proof (cases t)
    case (Some e)
    with assms False up thrown show ?thesis
      by (simp add: upload_and_report_def)
  next
    case None
    obtain f fs where ne: "dedup filesToUpload = f # fs"
      using False by (cases "dedup filesToUpload") auto
    from up None ne upload_files_no_release [of env ctx deny f fs w t urls ev1 w1]
    obtain r where r: "release = Some r"
      by (cases release) auto
    from assms False up None r finished [of r urls ev1] show ?thesis
      by (simp add: upload_and_report_def report_Some)
  qed
qed

subsection \<open>The ways a run can end\<close>

lemma run_cases:
  assumes "run env ctx inp w = Some (out, evs, w')"
  obtains
    (invalid) msg where "parse_inputs env ctx inp = Inl msg" "out = Returned"
      "evs = [SetFailed msg]" "w' = w"
  | (unresolved) p ev1 where "parse_inputs env ctx inp = Inr p"
      "resolve_release env ctx (targetTag p) (trimmedReleaseName p) w = Some (Inl out, ev1)"
      "evs = target_info (targetTag p) (trimmedReleaseName p) @ ev1" "w' = w"
  | (unreadable) p release ev1 e ev2 where "parse_inputs env ctx inp = Inr p"
      "resolve_release env ctx (targetTag p) (trimmedReleaseName p) w = Some (Inr release, ev1)"
      "collect_files env w (assetPaths p) = (Inl e, ev2)" "out = Thrown e"
      "evs = target_info (targetTag p) (trimmedReleaseName p) @ ev1 @ ev2" "w' = w"
  | (collected) p release ev1 files ev2 ev3 where "parse_inputs env ctx inp = Inr p"
      "resolve_release env ctx (targetTag p) (trimmedReleaseName p) w = Some (Inr release, ev1)"
      "collect_files env w (assetPaths p) = (Inr files, ev2)"
      "upload_and_report env ctx release (denyOverwriteBool (denyOverwrite inp)) files w =
         (out, ev3, w')"
      "evs = target_info (targetTag p) (trimmedReleaseName p) @ ev1 @ ev2 @ ev3"
proof (cases "parse_inputs env ctx inp")
  case (Inl msg)
  with assms invalid show ?thesis
    by (simp add: run_def)
next
  case (Inr p)
  with assms obtain res ev1 where
    res: "resolve_release env ctx (targetTag p) (trimmedReleaseName p) w = Some (res, ev1)"
    and rest: "(case res of
            Inl out \<Rightarrow> Some (out, target_info (targetTag p) (trimmedReleaseName p) @ ev1, w)
          | Inr release \<Rightarrow>
              (case collect_files env w (assetPaths p) of
                 (Inl e, ev2) \<Rightarrow>
                   Some (Thrown e, target_info (targetTag p) (trimmedReleaseName p) @ ev1 @ ev2, w)
               | (Inr filesToUpload, ev2) \<Rightarrow>
                   (case upload_and_report env ctx release (denyOverwriteBool (denyOverwrite inp))
                           filesToUpload w of
                      (out, ev3, w') \<Rightarrow>
                        Some (out,
                              target_info (targetTag p) (trimmedReleaseName p) @ ev1 @ ev2 @ ev3,
                              w')))) = Some (out, evs, w')"
    by (auto simp: run_def run_parsed_def bind_eq_Some_conv Let_def)
  show ?thesis
  proof (cases res)
    case stop: (Inl oc)
    with rest have "out = oc" "evs = target_info (targetTag p) (trimmedReleaseName p) @ ev1"
      "w' = w"
      by simp_all
    with res stop show ?thesis
      by (intro unresolved [OF Inr]) simp_all
  next
    case rel: (Inr release)
    obtain r2 ev2 where col: "collect_files env w (assetPaths p) = (r2, ev2)"
      by (cases "collect_files env w (assetPaths p)")
    show ?thesis
    proof (cases r2)
      case e: (Inl e)
      with rest rel col have "out = Thrown e"
        "evs = target_info (targetTag p) (trimmedReleaseName p) @ ev1 @ ev2" "w' = w"
        by simp_all
      with res rel col e show ?thesis
        by (intro unreadable [OF Inr]) simp_all
    next
      case fs: (Inr files)
      obtain o3 ev3 w3 where
        fin: "upload_and_report env ctx release (denyOverwriteBool (denyOverwrite inp)) files w =
          (o3, ev3, w3)"
        by (cases "upload_and_report env ctx release (denyOverwriteBool (denyOverwrite inp)) files w")
      with rest rel col fs have "out = o3"
        "evs = target_info (targetTag p) (trimmedReleaseName p) @ ev1 @ ev2 @ ev3" "w' = w3"
        by simp_all
      with res rel col fs fin show ?thesis
        by (intro collected [OF Inr]) simp_all
    qed
  qed
qed

lemma target_info_quiet: "\<forall>ev \<in> set (target_info tag nm). quiet ev"
  by (auto simp: target_info_def)

lemma parse_message_other:
  "parse_inputs env ctx inp = Inl msg \<Longrightarrow> msg \<noteq> ''No files found to upload''"
  by (auto simp: parse_inputs_def Let_def split: sum.splits if_splits)

lemma other_messages:
  "mismatch_message found nm \<noteq> ''No files found to upload''"
  "not_found_message tag nm \<noteq> ''No files found to upload''"
  "conflict_message f \<noteq> ''No files found to upload''"
  by (simp_all add: mismatch_message_def not_found_message_def conflict_message_def)

lemma no_regular_files:
  "concat (map (regular_files env w) patterns) = [] \<longleftrightarrow>
   (\<forall>pattern \<in> set patterns. regular_files env w pattern = [])"
  by (induction patterns) auto

lemma quiet_SetFailed: "\<forall>ev \<in> set evs. quiet ev \<Longrightarrow> SetFailed m \<notin> set evs"
  by force

lemma quiet_SetOutput: "\<forall>ev \<in> set evs. quiet ev \<Longrightarrow> SetOutput k v \<notin> set evs"
  by force

lemma filter_glob_stat [simp]:
  "filter is_CallGlob (map CallStatSync ms) = []" "filter is_Warning (map CallStatSync ms) = []"
  by (induction ms) simp_all

text \<open>
  Claim C7. A run calls \<open>core.setFailed\<close> with \<open>No files found to upload\<close> exactly
  when the inputs were accepted, a release was resolved, the collector ended
  without an error and the plan is empty. The plan is empty exactly when no
  pattern has a regular file among its matches. In that case the run returns,
  the world is unchanged, the failure is the last event, after the collector's
  events, in which every pattern was expanded and every pattern got its own
  warning; \<open>core.setOutput\<close> is never called.
\<close>

theorem no_files_found_iff:
  assumes run: "run env ctx inp w = Some (out, evs, w')"
  shows "(SetFailed ''No files found to upload'' \<in> set evs \<longleftrightarrow>
           (\<exists>p release ev1 files ev2.
              parse_inputs env ctx inp = Inr p \<and>
              resolve_release env ctx (targetTag p) (trimmedReleaseName p) w =
                Some (Inr release, ev1) \<and>
              collect_files env w (assetPaths p) = (Inr files, ev2) \<and>
              dedup files = [])) \<and>
         (\<forall>p release ev1 files ev2.
            parse_inputs env ctx inp = Inr p \<and>
            resolve_release env ctx (targetTag p) (trimmedReleaseName p) w =
              Some (Inr release, ev1) \<and>
            collect_files env w (assetPaths p) = (Inr files, ev2) \<longrightarrow>
            (dedup files = [] \<longleftrightarrow>
               (\<forall>pattern \<in> set (assetPaths p). regular_files env w pattern = [])) \<and>
            (dedup files = [] \<longrightarrow>
               out = Returned \<and> w' = w \<and>
               evs = target_info (targetTag p) (trimmedReleaseName p) @ ev1 @ ev2 @
                     [SetFailed ''No files found to upload''] \<and>
               filter is_CallGlob ev2 = map CallGlob (assetPaths p) \<and>
               filter is_Warning ev2 =
                 map (\<lambda>pattern. Warning (''No files matched pattern: '' @ template env pattern))
                   (assetPaths p) \<and>
               (\<forall>k v. SetOutput k v \<notin> set evs)))"
proof (intro conjI allI impI iffI)
  assume nff: "SetFailed ''No files found to upload'' \<in> set evs"
  from run show "\<exists>p release ev1 files ev2.
              parse_inputs env ctx inp = Inr p \<and>
              resolve_release env ctx (targetTag p) (trimmedReleaseName p) w =
                Some (Inr release, ev1) \<and>
              collect_files env w (assetPaths p) = (Inr files, ev2) \<and>
              dedup files = []"
  proof (cases rule: run_cases)
    case (invalid msg)
    with nff parse_message_other show ?thesis by auto
  next
    case (unresolved p ev1)
    from nff unresolved(3) target_info_quiet [of "targetTag p" "trimmedReleaseName p"]
    have "SetFailed ''No files found to upload'' \<in> set ev1"
      by (auto dest: quiet_SetFailed)
    with resolve_release_events [OF unresolved(2)] other_messages show ?thesis
      by metis
  next
    case (unreadable p release ev1 e ev2)
    from resolve_release_events [OF unreadable(2)]
    have "SetFailed ''No files found to upload'' \<notin> set ev1" by auto
    with nff unreadable(5) target_info_quiet [of "targetTag p" "trimmedReleaseName p"]
      collect_files_quiet [OF unreadable(3)]
    show ?thesis
      by (auto dest: quiet_SetFailed)
  next
    case (collected p release ev1 files ev2 ev3)
    show ?thesis
    proof (cases "dedup files = []")
      case True
      with collected show ?thesis by blast
    next
      case False
      from resolve_release_events [OF collected(2)]
      have "SetFailed ''No files found to upload'' \<notin> set ev1" by auto
      with nff collected(5) target_info_quiet [of "targetTag p" "trimmedReleaseName p"]
        collect_files_quiet [OF collected(3)]
      have in3: "SetFailed ''No files found to upload'' \<in> set ev3"
        by (auto dest: quiet_SetFailed)
      from collected(4) False in3 show ?thesis
      proof (cases rule: upload_and_report_cases)
        case empty
        with False show ?thesis by simp
      next
        case (thrown e urls ev)
        from in3 thrown(4) plan_info_quiet [of files "dedup files"]
        have "SetFailed ''No files found to upload'' \<in> set ev"
          by (auto dest: quiet_SetFailed)
        with upload_files_events [OF thrown(2)] other_messages(3) show ?thesis
          by metis
      next
        case (finished r urls ev)
        from upload_files_events [OF finished(3)]
        have "SetFailed ''No files found to upload'' \<notin> set ev" by auto
        with in3 finished(5) plan_info_quiet [of files "dedup files"] show ?thesis
          by (auto simp: report_Some dest: quiet_SetFailed)
      qed
    qed
  qed
next
  assume "\<exists>p release ev1 files ev2.
              parse_inputs env ctx inp = Inr p \<and>
              resolve_release env ctx (targetTag p) (trimmedReleaseName p) w =
                Some (Inr release, ev1) \<and>
              collect_files env w (assetPaths p) = (Inr files, ev2) \<and>
              dedup files = []"
  then obtain p release ev1 files ev2 where
    "parse_inputs env ctx inp = Inr p"
    "resolve_release env ctx (targetTag p) (trimmedReleaseName p) w = Some (Inr release, ev1)"
    "collect_files env w (assetPaths p) = (Inr files, ev2)" "dedup files = []"
    by blast
  with run show "SetFailed ''No files found to upload'' \<in> set evs"
    by (auto simp: run_def run_parsed_def upload_and_report_def)
next
  fix p release ev1 files ev2
  assume a: "parse_inputs env ctx inp = Inr p \<and>
            resolve_release env ctx (targetTag p) (trimmedReleaseName p) w =
              Some (Inr release, ev1) \<and>
            collect_files env w (assetPaths p) = (Inr files, ev2)"
  then have col: "collect_files env w (assetPaths p) = (Inr files, ev2)" by simp
  note c = collect_files_Inr [OF col]
  have empty_iff: "dedup files = [] \<longleftrightarrow>
      (\<forall>pattern \<in> set (assetPaths p). regular_files env w pattern = [])"
    using c by (simp add: dedup_keep_first no_regular_files)
  {
    assume "dedup files = []"
    with empty_iff show "\<forall>pattern \<in> set (assetPaths p). regular_files env w pattern = []"
      by simp
  }
  {
    assume "\<forall>pattern \<in> set (assetPaths p). regular_files env w pattern = []"
    with empty_iff show "dedup files = []" by simp
  }
  assume d: "dedup files = []"
  with run a show "out = Returned" and "w' = w"
    and evs: "evs = target_info (targetTag p) (trimmedReleaseName p) @ ev1 @ ev2 @
                     [SetFailed ''No files found to upload'']"
    by (auto simp: run_def run_parsed_def upload_and_report_def)
  from c show "filter is_CallGlob ev2 = map CallGlob (assetPaths p)" by simp
  from d empty_iff have "filter (\<lambda>pattern. regular_files env w pattern = []) (assetPaths p) =
      assetPaths p"
    by simp
  with c show "filter is_Warning ev2 =
                 map (\<lambda>pattern. Warning (''No files matched pattern: '' @ template env pattern))
                   (assetPaths p)"
    by simp
  fix k v
  from a resolve_release_events [of env ctx "targetTag p" "trimmedReleaseName p" w "Inr release" ev1]
  have "SetOutput k v \<notin> set ev1" by blast
  with evs target_info_quiet [of "targetTag p" "trimmedReleaseName p"]
    collect_files_quiet [OF col]
  show "SetOutput k v \<notin> set evs"
    by (auto dest: quiet_SetOutput)
qed

theorem no_files_found_iff_witness:
  "\<exists>ev0 ev2.
     run demo_env branch_ctx
       (demo_inputs (array_text [''dist*'', ''missing/*.zip'']) [] ''Good Name''
          (JsString ''true'')) stocked_repo =
       Some (Returned, ev0 @ ev2 @ [SetFailed ''No files found to upload''], stocked_repo) \<and>
     filter is_CallGlob ev2 = [CallGlob (JStr ''dist*''), CallGlob (JStr ''missing/*.zip'')] \<and>
     filter is_Warning ev2 =
       [Warning ''No files matched pattern: dist*'',
        Warning ''No files matched pattern: missing/*.zip''] \<and>
     regular_files demo_env stocked_repo (JStr ''dist*'') = [] \<and>
     regular_files demo_env stocked_repo (JStr ''missing/*.zip'') = []"
proof -
  let ?inp = "demo_inputs (array_text [''dist*'', ''missing/*.zip'']) [] ''Good Name''
          (JsString ''true'')"
  let ?evs = "[Info ''Target release name: Good Name'',
    Info ''Searching all releases (including drafts)...'',
    CallListReleases ''acme'' ''tool'' 100 1,
    Info ''Found release by name: Good Name (v1.0.0)'',
    CallGlob (JStr ''dist*''), CallStatSync ''/w/dist'',
    Warning ''No files matched pattern: dist*'',
    CallGlob (JStr ''missing/*.zip''),
    Warning ''No files matched pattern: missing/*.zip'',
    SetFailed ''No files found to upload'']"
  let ?p = "\<lparr>assetPaths = [JStr ''dist*'', JStr ''missing/*.zip''], targetTag = [],
             trimmedReleaseName = ''Good Name''\<rparr>"
  have run: "run demo_env branch_ctx ?inp stocked_repo = Some (Returned, ?evs, stocked_repo)"
    by code_simp
  have parse: "parse_inputs demo_env branch_ctx ?inp = Inr ?p"
    by code_simp
  have "SetFailed ''No files found to upload'' \<in> set ?evs"
    by simp
  with no_files_found_iff [OF run] parse obtain release ev1 files ev2 where
    res: "resolve_release demo_env branch_ctx (targetTag ?p) (trimmedReleaseName ?p) stocked_repo =
        Some (Inr release, ev1)"
    and col: "collect_files demo_env stocked_repo (assetPaths ?p) = (Inr files, ev2)"
    and empty: "dedup files = []"
    by auto
  from no_files_found_iff [OF run] parse res col empty
  have none: "\<forall>pattern \<in> set (assetPaths ?p). regular_files demo_env stocked_repo pattern = []"
    and evs: "?evs = target_info (targetTag ?p) (trimmedReleaseName ?p) @ ev1 @ ev2 @
                     [SetFailed ''No files found to upload'']"
    and globs: "filter is_CallGlob ev2 = map CallGlob (assetPaths ?p)"
    and warns: "filter is_Warning ev2 =
                 map (\<lambda>pattern. Warning (''No files matched pattern: '' @
                                          template demo_env pattern)) (assetPaths ?p)"
    by blast+
  from run evs have "run demo_env branch_ctx ?inp stocked_repo =
      Some (Returned,
            (target_info (targetTag ?p) (trimmedReleaseName ?p) @ ev1) @ ev2 @
            [SetFailed ''No files found to upload''], stocked_repo)"
    by simp
  moreover from globs have
    "filter is_CallGlob ev2 = [CallGlob (JStr ''dist*''), CallGlob (JStr ''missing/*.zip'')]"
    by simp
  moreover from warns have "filter is_Warning ev2 =
       [Warning ''No files matched pattern: dist*'',
        Warning ''No files matched pattern: missing/*.zip'']"
    by simp
  moreover from none have "regular_files demo_env stocked_repo (JStr ''dist*'') = []"
    and "regular_files demo_env stocked_repo (JStr ''missing/*.zip'') = []"
    by simp_all
  ultimately show ?thesis by blast
qed

text \<open>
  Claim C9. In a run that ends with an error thrown, or in which \<open>core.setFailed\<close>
  is called, \<open>core.setOutput\<close> is never called. When it is called, the inputs
  were accepted, a release was resolved, the collector ended without an error and
  the loop over the plan ended with no error, one URL for each file of the plan.
\<close>

theorem output_only_on_success:
  assumes run: "run env ctx inp w = Some (out, evs, w')"
  shows "(((\<exists>e. out = Thrown e) \<or> (\<exists>m. SetFailed m \<in> set evs)) \<longrightarrow>
            (\<forall>k v. SetOutput k v \<notin> set evs)) \<and>
         ((\<exists>k v. SetOutput k v \<in> set evs) \<longrightarrow>
            (\<exists>p r ev1 files ev2 urls ev3.
               parse_inputs env ctx inp = Inr p \<and>
               resolve_release env ctx (targetTag p) (trimmedReleaseName p) w =
                 Some (Inr (Some r), ev1) \<and>
               collect_files env w (assetPaths p) = (Inr files, ev2) \<and>
               upload_files env ctx (Some r) (denyOverwriteBool (denyOverwrite inp))
                 (dedup files) w = (None, urls, ev3, w') \<and>
               length urls = length (dedup files)))"
proof -
  let ?success = "\<exists>p r ev1 files ev2 urls ev3.
               parse_inputs env ctx inp = Inr p \<and>
               resolve_release env ctx (targetTag p) (trimmedReleaseName p) w =
                 Some (Inr (Some r), ev1) \<and>
               collect_files env w (assetPaths p) = (Inr files, ev2) \<and>
               upload_files env ctx (Some r) (denyOverwriteBool (denyOverwrite inp))
                 (dedup files) w = (None, urls, ev3, w') \<and>
               length urls = length (dedup files)"
  have "(\<forall>k v. SetOutput k v \<notin> set evs) \<or>
        (out = Returned \<and> (\<forall>m. SetFailed m \<notin> set evs) \<and> ?success)"
    using run
  proof (cases rule: run_cases)
    case (invalid msg)
    then show ?thesis by simp
  next
    case (unresolved p ev1)
    with resolve_release_events [OF unresolved(2)]
      target_info_quiet [of "targetTag p" "trimmedReleaseName p"]
    show ?thesis
      by (auto dest: quiet_SetOutput)
  next
    case (unreadable p release ev1 e ev2)
    with resolve_release_events [OF unreadable(2)]
      target_info_quiet [of "targetTag p" "trimmedReleaseName p"]
      collect_files_quiet [OF unreadable(3)]
    show ?thesis
      by (auto dest: quiet_SetOutput)
  next
    case (collected p release ev1 files ev2 ev3)
    note r = resolve_release_events [OF collected(2)]
    note t = target_info_quiet [of "targetTag p" "trimmedReleaseName p"]
    note c = collect_files_quiet [OF collected(3)]
    from collected(4) show ?thesis
    proof (cases rule: upload_and_report_cases)
      case empty
      with collected(5) r t c show ?thesis
        by (auto dest: quiet_SetOutput)
    next
      case (thrown e urls ev)
      with collected(5) r t c upload_files_events [OF thrown(2)]
        plan_info_quiet [of files "dedup files"]
      show ?thesis
        by (auto dest: quiet_SetOutput)
    next
      case (finished r' urls ev)
      note u = upload_files_events [OF finished(3)]
      have "\<forall>m. SetFailed m \<notin> set evs"
        using collected(5) finished(5) r t c u plan_info_quiet [of files "dedup files"]
        by (auto simp: report_Some dest: quiet_SetFailed)
      moreover have ?success
        using collected(1-3) finished(2,3) u by blast
      ultimately show ?thesis
        using finished(4) by blast
    qed
  qed
  then show ?thesis by blast
qed

theorem output_only_on_success_witness:
  "\<exists>e evs w'.
     run demo_env demo_ctx
       (demo_inputs (array_text [''dist/*.tar.gz'']) [] [] (JsString ''true'')) late_repo =
       Some (Thrown e, evs, w') \<and>
     uploaded ''a.tar.gz'' \<in> set evs \<and>
     SetFailed (conflict_message ''b.tar.gz'') \<in> set evs \<and>
     (\<forall>k v. SetOutput k v \<notin> set evs)"
proof -
  let ?inp = "demo_inputs (array_text [''dist/*.tar.gz'']) [] [] (JsString ''true'')"
  have "(case run demo_env demo_ctx ?inp late_repo of
           None \<Rightarrow> False
         | Some (out, evs, w') \<Rightarrow>
             out \<noteq> Returned \<and> uploaded ''a.tar.gz'' \<in> set evs \<and>
             SetFailed (conflict_message ''b.tar.gz'') \<in> set evs)"
    by code_simp
  then obtain out evs w' where
    "run demo_env demo_ctx ?inp late_repo = Some (out, evs, w')" and "out \<noteq> Returned"
    and up: "uploaded ''a.tar.gz'' \<in> set evs"
    and failed: "SetFailed (conflict_message ''b.tar.gz'') \<in> set evs"
    by (cases "run demo_env demo_ctx ?inp late_repo") auto
  then obtain e where
    run: "run demo_env demo_ctx ?inp late_repo = Some (Thrown e, evs, w')"
    by (cases out) auto
  from output_only_on_success [OF run] have "\<forall>k v. SetOutput k v \<notin> set evs"
    by blast
  with run up failed show ?thesis by blast
qed

subsection \<open>Conflicts\<close>

lemma js_includes_prefix: "js_startsWith xs s \<Longrightarrow> js_includes xs s"
  by (cases xs) (auto simp: js_startsWith_def)

lemma js_includes_self: "js_includes (pre @ s @ post) s"
proof (induction pre)
  case Nil
  show ?case by (simp add: js_includes_prefix js_startsWith_def)
next
  case (Cons c pre)
  then show ?case by simp
qed

lemma conflict_message_names: "js_includes (conflict_message fileName) fileName"
proof -
  have "conflict_message fileName =
      (''Error: Overwriting artifacts is not prohibited '' @ cross_mark @ newline @
       ''Asset '' @ [CHR 0x27]) @ fileName @
      ([CHR 0x27] @ '' already exists in this release.'' @ newline @
       ''Set '' @ [CHR 0x27] @ ''deny_overwrite: false'' @ [CHR 0x27] @
       '' to allow replacing existing assets.'')"
    by (simp add: conflict_message_def)
  then show ?thesis
    by (simp only: js_includes_self)
qed

text \<open>One turn of the loop when the first request is refused as a conflict.\<close>

lemma upload_file_conflict:
  assumes read: "readFileSync env f w = Inr content"
    and up: "uploadReleaseAsset env (owner ctx) (repo ctx) (release_id r) (basename env f) content w =
             (Inl e, w1)"
    and conflict: "status e = Some 422" "js_includes (message e) ''already_exists''"
  shows "upload_file env ctx (Some r) deny f w =
    (if deny
     then (Inl e, first_attempt env ctx r f content @
                  [SetFailed (conflict_message (basename env f))], w1)
     else (case replace_asset env ctx (Some r) (basename env f) content e w1 of
             (Inr a, ev2, w2) \<Rightarrow>
               (Inr (browser_download_url a),
                first_attempt env ctx r f content @ [overwrite_warning env f] @ ev2 @
                [uploaded (basename env f)], w2)
           | (Inl retryError, ev2, w2) \<Rightarrow>
               (Inl retryError,
                first_attempt env ctx r f content @ [overwrite_warning env f] @ ev2 @
                [Error (''Failed to replace '' @ basename env f @ '': '' @ message retryError)],
                w2)))"
  using assms
  by (simp add: upload_file_def upload_call_def first_attempt_def overwrite_warning_def Let_def
           split: prod.splits sum.splits)

lemma replace_asset_unknown:
  assumes "find (\<lambda>a. asset_name a = fileName) (assets r) = None"
  shows "replace_asset env ctx (Some r) fileName content e w =
    (Inl e, [Error (''Asset '' @ fileName @ '' not found in release assets list'')], w)"
  using assms by (simp add: replace_asset_def)

lemma replace_asset_delete_failed:
  assumes "find (\<lambda>a. asset_name a = fileName) (assets r) = Some a"
    and "deleteReleaseAsset env (owner ctx) (repo ctx) (asset_id a) w = (Inl d, w1)"
  shows "replace_asset env ctx (Some r) fileName content e w =
    (Inl d, [CallDeleteReleaseAsset (owner ctx) (repo ctx) (asset_id a)], w1)"
  using assms by (simp add: replace_asset_def)

lemma replace_asset_retry:
  assumes "find (\<lambda>a. asset_name a = fileName) (assets r) = Some a"
    and "deleteReleaseAsset env (owner ctx) (repo ctx) (asset_id a) w = (Inr u, w1)"
    and "uploadReleaseAsset env (owner ctx) (repo ctx) (release_id r) fileName content w1 =
         (res, w2)"
  shows "replace_asset env ctx (Some r) fileName content e w =
    (res,
     [CallDeleteReleaseAsset (owner ctx) (repo ctx) (asset_id a),
      Info (''Deleted existing asset: '' @ fileName),
      CallUploadReleaseAsset (owner ctx) (repo ctx) (release_id r) fileName content], w2)"
  using assms by (simp add: replace_asset_def upload_call_def)

lemma upload_files_stop:
  assumes "upload_files env ctx release deny pre w = (None, urls, ev, w1)"
    and "upload_file env ctx release deny f w1 = (Inl e, ev', w2)"
  shows "upload_files env ctx release deny (pre @ f # post) w = (Some e, urls, ev @ ev', w2)"
  using assms by (simp add: upload_files_append)

lemma upload_files_continue:
  assumes "upload_files env ctx release deny pre w = (None, urls, ev, w1)"
    and "upload_file env ctx release deny f w1 = (Inr url, ev', w2)"
  shows "upload_files env ctx release deny (pre @ f # post) w =
    (case upload_files env ctx release deny post w2 of
       (thrown, urls', ev'', w3) \<Rightarrow> (thrown, urls @ url # urls', ev @ ev' @ ev'', w3))"
  using assms by (simp add: upload_files_append split: prod.splits)

lemma run_thrown_in_upload:
  assumes "parse_inputs env ctx inp = Inr p"
    and "resolve_release env ctx (targetTag p) (trimmedReleaseName p) w = Some (Inr release, ev1)"
    and "collect_files env w (assetPaths p) = (Inr files, ev2)"
    and "upload_files env ctx release (denyOverwriteBool (denyOverwrite inp)) (dedup files) w =
         (Some e, urls, ev3, w')"
  shows "run env ctx inp w =
    Some (Thrown e,
          target_info (targetTag p) (trimmedReleaseName p) @ ev1 @ ev2 @
          plan_info files (dedup files) @ ev3, w')"
proof -
  from assms(4) have "dedup files \<noteq> []"
    by (cases "dedup files") auto
  with assms show ?thesis
    by (simp add: run_def run_parsed_def upload_and_report_def)
qed

text \<open>
  Claim C2. Let overwriting be denied, let the files \<open>pre\<close> of the plan be
  uploaded, and let the service refuse the next file \<open>f\<close> with status 422 and
  \<open>already_exists\<close>. Then the loop is left with that error thrown and with the
  URLs of \<open>pre\<close> only; the run ends rejected, and its last events are the read of
  \<open>f\<close>, its one request and \<open>core.setFailed\<close> with a message that contains the
  base name of \<open>f\<close>. Nothing is done for the files \<open>post\<close> behind \<open>f\<close>.
\<close>

theorem conflict_denied_aborts:
  assumes parse: "parse_inputs env ctx inp = Inr p"
    and deny: "denyOverwriteBool (denyOverwrite inp)"
    and res: "resolve_release env ctx (targetTag p) (trimmedReleaseName p) w =
              Some (Inr (Some r), ev1)"
    and col: "collect_files env w (assetPaths p) = (Inr files, ev2)"
    and plan: "dedup files = pre @ f # post"
    and pre: "upload_files env ctx (Some r) True pre w = (None, urls, ev3, w1)"
    and read: "readFileSync env f w1 = Inr content"
    and up: "uploadReleaseAsset env (owner ctx) (repo ctx) (release_id r) (basename env f)
               content w1 = (Inl e, w2)"
    and conflict: "status e = Some 422" "js_includes (message e) ''already_exists''"
  shows "upload_files env ctx (Some r) True (pre @ f # post) w =
           (Some e, urls,
            ev3 @ first_attempt env ctx r f content @
            [SetFailed (conflict_message (basename env f))], w2) \<and>
         length urls = length pre \<and>
         run env ctx inp w =
           Some (Thrown e,
                 target_info (targetTag p) (trimmedReleaseName p) @ ev1 @ ev2 @
                 plan_info files (dedup files) @ ev3 @ first_attempt env ctx r f content @
                 [SetFailed (conflict_message (basename env f))], w2) \<and>
         js_includes (conflict_message (basename env f)) (basename env f)"
proof -
  from upload_file_conflict [OF read up conflict, of True]
  have turn: "upload_file env ctx (Some r) True f w1 =
      (Inl e, first_attempt env ctx r f content @
              [SetFailed (conflict_message (basename env f))], w2)"
    by simp
  from upload_files_stop [OF pre turn]
  have loop: "upload_files env ctx (Some r) True (pre @ f # post) w =
           (Some e, urls,
            ev3 @ first_attempt env ctx r f content @
            [SetFailed (conflict_message (basename env f))], w2)" .
  from upload_files_events [OF pre] have len: "length urls = length pre"
    by simp
  from loop deny plan
  have "upload_files env ctx (Some r) (denyOverwriteBool (denyOverwrite inp)) (dedup files) w =
           (Some e, urls,
            ev3 @ first_attempt env ctx r f content @
            [SetFailed (conflict_message (basename env f))], w2)"
    by simp
  from run_thrown_in_upload [OF parse res col this]
  have "run env ctx inp w =
           Some (Thrown e,
                 target_info (targetTag p) (trimmedReleaseName p) @ ev1 @ ev2 @
                 plan_info files (dedup files) @ ev3 @ first_attempt env ctx r f content @
                 [SetFailed (conflict_message (basename env f))], w2)"
    by simp
  with loop len conflict_message_names show ?thesis
    by blast
qed

theorem conflict_denied_aborts_witness:
  "dedup [''/w/dist/a.tar.gz'', ''/w/dist/b.tar.gz''] = [] @ ''/w/dist/a.tar.gz'' # [''/w/dist/b.tar.gz''] \<and>
   (\<exists>evs.
     run demo_env demo_ctx
       (demo_inputs (array_text [''dist/*.tar.gz'']) [] [] (JsString ''true'')) stocked_repo =
       Some (Thrown (JsError (Some 422) ''Validation Failed: already_exists''),
             evs @ [SetFailed (conflict_message ''a.tar.gz'')], stocked_repo) \<and>
     filter is_read evs = [CallReadFileSync ''/w/dist/a.tar.gz''] \<and>
     filter is_upload_call evs =
       [CallUploadReleaseAsset ''acme'' ''tool'' 7 ''a.tar.gz'' ''aaa''])"
proof -
  let ?inp = "demo_inputs (array_text [''dist/*.tar.gz'']) [] [] (JsString ''true'')"
  let ?p = "\<lparr>assetPaths = [JStr ''dist/*.tar.gz''], targetTag = ''v1.0.0'',
             trimmedReleaseName = []\<rparr>"
  let ?r = "good_release [old_asset]"
  let ?a = "''/w/dist/a.tar.gz''" and ?b = "''/w/dist/b.tar.gz''"
  let ?ev1 = "[Info ''Attempting to fetch release by tag: v1.0.0'',
      Info ''Repository: acme/tool'', CallGetReleaseByTag ''acme'' ''tool'' ''v1.0.0'',
      Info ''Found release by tag: Good Name (v1.0.0)'']"
  let ?ev2 = "[CallGlob (JStr ''dist/*.tar.gz''), CallStatSync ?a, CallStatSync ?b,
      match_report demo_env (JStr ''dist/*.tar.gz'') [?a, ?b]]"
  let ?e = "JsError (Some 422) ''Validation Failed: already_exists''"
  have parse: "parse_inputs demo_env demo_ctx ?inp = Inr ?p"
    by code_simp
  have deny: "denyOverwriteBool (denyOverwrite ?inp)"
    by code_simp
  have res: "resolve_release demo_env demo_ctx (targetTag ?p) (trimmedReleaseName ?p) stocked_repo =
      Some (Inr (Some ?r), ?ev1)"
    by code_simp
  have col: "collect_files demo_env stocked_repo (assetPaths ?p) = (Inr [?a, ?b], ?ev2)"
    by code_simp
  have plan: "dedup [?a, ?b] = [] @ ?a # [?b]"
    by code_simp
  have pre: "upload_files demo_env demo_ctx (Some ?r) True [] stocked_repo =
      (None, [], [], stocked_repo)"
    by simp
  have read: "readFileSync demo_env ?a stocked_repo = Inr ''aaa''"
    by code_simp
  have up: "uploadReleaseAsset demo_env (owner demo_ctx) (repo demo_ctx) (release_id ?r)
      (basename demo_env ?a) ''aaa'' stocked_repo = (Inl ?e, stocked_repo)"
    by code_simp
  have conflict: "status ?e = Some 422" "js_includes (message ?e) ''already_exists''"
    by code_simp+
  have base: "basename demo_env ?a = ''a.tar.gz''"
    by code_simp
  have first: "first_attempt demo_env demo_ctx ?r ?a ''aaa'' =
      [CallReadFileSync ?a, Info ''Uploading: a.tar.gz (3 bytes)'',
       CallUploadReleaseAsset ''acme'' ''tool'' 7 ''a.tar.gz'' ''aaa'']"
    by code_simp
  from conflict_denied_aborts [OF parse deny res col plan pre read up conflict]
  have "run demo_env demo_ctx ?inp stocked_repo =
      Some (Thrown ?e,
            target_info (targetTag ?p) (trimmedReleaseName ?p) @ ?ev1 @ ?ev2 @
            plan_info [?a, ?b] (dedup [?a, ?b]) @ [] @
            first_attempt demo_env demo_ctx ?r ?a ''aaa'' @
            [SetFailed (conflict_message (basename demo_env ?a))], stocked_repo)"
    by blast
  then have "run demo_env demo_ctx ?inp stocked_repo =
      Some (Thrown ?e,
            (target_info (targetTag ?p) (trimmedReleaseName ?p) @ ?ev1 @ ?ev2 @
             plan_info [?a, ?b] (dedup [?a, ?b]) @
             first_attempt demo_env demo_ctx ?r ?a ''aaa'') @
            [SetFailed (conflict_message ''a.tar.gz'')], stocked_repo)"
    by (simp only: base append_Nil append_assoc)
  moreover have "filter is_read
      (target_info (targetTag ?p) (trimmedReleaseName ?p) @ ?ev1 @ ?ev2 @
       plan_info [?a, ?b] (dedup [?a, ?b]) @ first_attempt demo_env demo_ctx ?r ?a ''aaa'') =
      [CallReadFileSync ?a]"
    unfolding first by (simp add: target_info_def plan_info_def match_report_def)
  moreover have "filter is_upload_call
      (target_info (targetTag ?p) (trimmedReleaseName ?p) @ ?ev1 @ ?ev2 @
       plan_info [?a, ?b] (dedup [?a, ?b]) @ first_attempt demo_env demo_ctx ?r ?a ''aaa'') =
      [CallUploadReleaseAsset ''acme'' ''tool'' 7 ''a.tar.gz'' ''aaa'']"
    unfolding first by (simp add: target_info_def plan_info_def match_report_def)
  ultimately show ?thesis
    using plan by blast
qed

text \<open>One turn of the loop after a conflict when overwriting is allowed.\<close>

lemma upload_file_overwrite:
  assumes read: "readFileSync env f w = Inr content"
    and up: "uploadReleaseAsset env (owner ctx) (repo ctx) (release_id r) (basename env f) content w =
             (Inl e, w1)"
    and conflict: "status e = Some 422" "js_includes (message e) ''already_exists''"
  shows "upload_file env ctx (Some r) False f w =
    (case find (\<lambda>a. asset_name a = basename env f) (assets r) of
       None \<Rightarrow>
         (Inl e,
          first_attempt env ctx r f content @
          [overwrite_warning env f,
           Error (''Asset '' @ basename env f @ '' not found in release assets list''),
           Error (''Failed to replace '' @ basename env f @ '': '' @ message e)], w1)
     | Some a \<Rightarrow>
         (case deleteReleaseAsset env (owner ctx) (repo ctx) (asset_id a) w1 of
            (Inl d, w2) \<Rightarrow>
              (Inl d,
               first_attempt env ctx r f content @
               [overwrite_warning env f,
                CallDeleteReleaseAsset (owner ctx) (repo ctx) (asset_id a),
                Error (''Failed to replace '' @ basename env f @ '': '' @ message d)], w2)
          | (Inr u, w2) \<Rightarrow>
              (case uploadReleaseAsset env (owner ctx) (repo ctx) (release_id r)
                      (basename env f) content w2 of
                 (Inl e2, w3) \<Rightarrow>
                   (Inl e2,
                    first_attempt env ctx r f content @
                    [overwrite_warning env f,
                     CallDeleteReleaseAsset (owner ctx) (repo ctx) (asset_id a),
                     Info (''Deleted existing asset: '' @ basename env f),
                     CallUploadReleaseAsset (owner ctx) (repo ctx) (release_id r)
                       (basename env f) content,
                     Error (''Failed to replace '' @ basename env f @ '': '' @ message e2)], w3)
               | (Inr a', w3) \<Rightarrow>
                   (Inr (browser_download_url a'),
                    first_attempt env ctx r f content @
                    [overwrite_warning env f,
                     CallDeleteReleaseAsset (owner ctx) (repo ctx) (asset_id a),
                     Info (''Deleted existing asset: '' @ basename env f),
                     CallUploadReleaseAsset (owner ctx) (repo ctx) (release_id r)
                       (basename env f) content,
                     uploaded (basename env f)], w3))))"
proof (cases "find (\<lambda>a. asset_name a = basename env f) (assets r)")
  case None
  with upload_file_conflict [OF read up conflict, of False] show ?thesis
    by (simp add: replace_asset_unknown)
next
  case (Some a)
  obtain dres w2 where del:
    "deleteReleaseAsset env (owner ctx) (repo ctx) (asset_id a) w1 = (dres, w2)"
    by (cases "deleteReleaseAsset env (owner ctx) (repo ctx) (asset_id a) w1")
  show ?thesis
  proof (cases dres)
    case (Inl d)
    with upload_file_conflict [OF read up conflict, of False] Some del show ?thesis
      by (simp add: replace_asset_delete_failed)
  next
    case (Inr u)
    obtain ures w3 where again:
      "uploadReleaseAsset env (owner ctx) (repo ctx) (release_id r) (basename env f) content w2 =
         (ures, w3)"
      by (cases "uploadReleaseAsset env (owner ctx) (repo ctx) (release_id r) (basename env f)
                   content w2")
    from Some del Inr again
    have "replace_asset env ctx (Some r) (basename env f) content e w1 =
      (ures,
       [CallDeleteReleaseAsset (owner ctx) (repo ctx) (asset_id a),
        Info (''Deleted existing asset: '' @ basename env f),
        CallUploadReleaseAsset (owner ctx) (repo ctx) (release_id r) (basename env f) content],
       w3)"
      by (intro replace_asset_retry) simp_all
    with upload_file_conflict [OF read up conflict, of False] Some del Inr again show ?thesis
      by (cases ures) simp_all
  qed
qed

text \<open>
  Claim C3. Let overwriting be allowed, let the files \<open>pre\<close> of the plan be
  uploaded, and let the service refuse the next file \<open>f\<close> with status 422 and
  \<open>already_exists\<close>; \<open>evs\<close> is the trace up to the warning that follows. If
  \<open>release.assets\<close>, as read when the release was resolved, has no asset of that
  name, the run ends with the conflict thrown and nothing requested. Otherwise the
  first such asset is deleted; if the deletion fails the run ends with its error;
  if not, the upload is requested once more, and never again: its failure ends the
  run, and its success adds the URL of the new asset, and nothing else, to
  \<open>downloadUrls\<close> before the loop goes on with the files behind \<open>f\<close>.
\<close>

theorem conflict_overwrite:
  assumes parse: "parse_inputs env ctx inp = Inr p"
    and allow: "\<not> denyOverwriteBool (denyOverwrite inp)"
    and res: "resolve_release env ctx (targetTag p) (trimmedReleaseName p) w =
              Some (Inr (Some r), ev1)"
    and col: "collect_files env w (assetPaths p) = (Inr files, ev2)"
    and plan: "dedup files = pre @ f # post"
    and pre: "upload_files env ctx (Some r) False pre w = (None, urls, ev3, w1)"
    and read: "readFileSync env f w1 = Inr content"
    and up: "uploadReleaseAsset env (owner ctx) (repo ctx) (release_id r) (basename env f)
               content w1 = (Inl e, w2)"
    and conflict: "status e = Some 422" "js_includes (message e) ''already_exists''"
    and before: "evs = target_info (targetTag p) (trimmedReleaseName p) @ ev1 @ ev2 @
                   plan_info files (dedup files) @ ev3 @ first_attempt env ctx r f content @
                   [overwrite_warning env f]"
  shows
    "(find (\<lambda>a. asset_name a = basename env f) (assets r) = None \<longrightarrow>
        run env ctx inp w =
          Some (Thrown e,
                evs @
                [Error (''Asset '' @ basename env f @ '' not found in release assets list''),
                 Error (''Failed to replace '' @ basename env f @ '': '' @ message e)], w2)) \<and>
     (\<forall>a. find (\<lambda>a. asset_name a = basename env f) (assets r) = Some a \<longrightarrow>
        (\<forall>d w3. deleteReleaseAsset env (owner ctx) (repo ctx) (asset_id a) w2 = (Inl d, w3) \<longrightarrow>
           run env ctx inp w =
             Some (Thrown d,
                   evs @
                   [CallDeleteReleaseAsset (owner ctx) (repo ctx) (asset_id a),
                    Error (''Failed to replace '' @ basename env f @ '': '' @ message d)], w3)) \<and>
        (\<forall>u w3. deleteReleaseAsset env (owner ctx) (repo ctx) (asset_id a) w2 = (Inr u, w3) \<longrightarrow>
           (\<forall>e2 w4. uploadReleaseAsset env (owner ctx) (repo ctx) (release_id r)
                       (basename env f) content w3 = (Inl e2, w4) \<longrightarrow>
              run env ctx inp w =
                Some (Thrown e2,
                      evs @
                      [CallDeleteReleaseAsset (owner ctx) (repo ctx) (asset_id a),
                       Info (''Deleted existing asset: '' @ basename env f),
                       CallUploadReleaseAsset (owner ctx) (repo ctx) (release_id r)
                         (basename env f) content,
                       Error (''Failed to replace '' @ basename env f @ '': '' @ message e2)],
                      w4)) \<and>
           (\<forall>a' w4. uploadReleaseAsset env (owner ctx) (repo ctx) (release_id r)
                       (basename env f) content w3 = (Inr a', w4) \<longrightarrow>
              upload_files env ctx (Some r) False (pre @ f # post) w =
                (case upload_files env ctx (Some r) False post w4 of
                   (thrown, urls', ev', w5) \<Rightarrow>
                     (thrown, urls @ browser_download_url a' # urls',
                      ev3 @ first_attempt env ctx r f content @
                      [overwrite_warning env f,
                       CallDeleteReleaseAsset (owner ctx) (repo ctx) (asset_id a),
                       Info (''Deleted existing asset: '' @ basename env f),
                       CallUploadReleaseAsset (owner ctx) (repo ctx) (release_id r)
                         (basename env f) content,
                       uploaded (basename env f)] @ ev',
                      w5)))))"
proof -
  note turn = upload_file_overwrite [OF read up conflict]
  have flag: "denyOverwriteBool (denyOverwrite inp) = False"
    using allow by simp
  have thrown: "run env ctx inp w =
      Some (Thrown x,
            target_info (targetTag p) (trimmedReleaseName p) @ ev1 @ ev2 @
            plan_info files (dedup files) @ ev3 @ ev', w')"
    if "upload_file env ctx (Some r) False f w1 = (Inl x, ev', w')" for x ev' w'
  proof -
    from upload_files_stop [OF pre that, of post] plan flag
    have "upload_files env ctx (Some r) (denyOverwriteBool (denyOverwrite inp)) (dedup files) w =
        (Some x, urls, ev3 @ ev', w')"
      by simp
    from run_thrown_in_upload [OF parse res col this] show ?thesis
      by simp
  qed
  show ?thesis
  proof (intro conjI allI impI)
    assume "find (\<lambda>a. asset_name a = basename env f) (assets r) = None"
    with turn have "upload_file env ctx (Some r) False f w1 =
        (Inl e,
         first_attempt env ctx r f content @
         [overwrite_warning env f,
          Error (''Asset '' @ basename env f @ '' not found in release assets list''),
          Error (''Failed to replace '' @ basename env f @ '': '' @ message e)], w2)"
      by simp
    from thrown [OF this] show "run env ctx inp w =
          Some (Thrown e,
                evs @
                [Error (''Asset '' @ basename env f @ '' not found in release assets list''),
                 Error (''Failed to replace '' @ basename env f @ '': '' @ message e)], w2)"
      by (simp add: before)
  next
    fix a d w3
    assume "find (\<lambda>a. asset_name a = basename env f) (assets r) = Some a"
      and "deleteReleaseAsset env (owner ctx) (repo ctx) (asset_id a) w2 = (Inl d, w3)"
    with turn have "upload_file env ctx (Some r) False f w1 =
        (Inl d,
         first_attempt env ctx r f content @
         [overwrite_warning env f,
          CallDeleteReleaseAsset (owner ctx) (repo ctx) (asset_id a),
          Error (''Failed to replace '' @ basename env f @ '': '' @ message d)], w3)"
      by simp
    from thrown [OF this] show "run env ctx inp w =
             Some (Thrown d,
                   evs @
                   [CallDeleteReleaseAsset (owner ctx) (repo ctx) (asset_id a),
                    Error (''Failed to replace '' @ basename env f @ '': '' @ message d)], w3)"
      by (simp add: before)
  next
    fix a u w3 e2 w4
    assume "find (\<lambda>a. asset_name a = basename env f) (assets r) = Some a"
      and "deleteReleaseAsset env (owner ctx) (repo ctx) (asset_id a) w2 = (Inr u, w3)"
      and "uploadReleaseAsset env (owner ctx) (repo ctx) (release_id r)
                       (basename env f) content w3 = (Inl e2, w4)"
    with turn have "upload_file env ctx (Some r) False f w1 =
        (Inl e2,
         first_attempt env ctx r f content @
         [overwrite_warning env f,
          CallDeleteReleaseAsset (owner ctx) (repo ctx) (asset_id a),
          Info (''Deleted existing asset: '' @ basename env f),
          CallUploadReleaseAsset (owner ctx) (repo ctx) (release_id r) (basename env f) content,
          Error (''Failed to replace '' @ basename env f @ '': '' @ message e2)], w4)"
      by simp
    from thrown [OF this] show "run env ctx inp w =
                Some (Thrown e2,
                      evs @
                      [CallDeleteReleaseAsset (owner ctx) (repo ctx) (asset_id a),
                       Info (''Deleted existing asset: '' @ basename env f),
                       CallUploadReleaseAsset (owner ctx) (repo ctx) (release_id r)
                         (basename env f) content,
                       Error (''Failed to replace '' @ basename env f @ '': '' @ message e2)],
                      w4)"
      by (simp add: before)
  next
    fix a u w3 a' w4
    assume "find (\<lambda>a. asset_name a = basename env f) (assets r) = Some a"
      and "deleteReleaseAsset env (owner ctx) (repo ctx) (asset_id a) w2 = (Inr u, w3)"
      and "uploadReleaseAsset env (owner ctx) (repo ctx) (release_id r)
                       (basename env f) content w3 = (Inr a', w4)"
    with turn have "upload_file env ctx (Some r) False f w1 =
        (Inr (browser_download_url a'),
         first_attempt env ctx r f content @
         [overwrite_warning env f,
          CallDeleteReleaseAsset (owner ctx) (repo ctx) (asset_id a),
          Info (''Deleted existing asset: '' @ basename env f),
          CallUploadReleaseAsset (owner ctx) (repo ctx) (release_id r) (basename env f) content,
          uploaded (basename env f)], w4)"
      by simp
    from upload_files_continue [OF pre this, of post]
    show "upload_files env ctx (Some r) False (pre @ f # post) w =
                (case upload_files env ctx (Some r) False post w4 of
                   (thrown, urls', ev', w5) \<Rightarrow>
                     (thrown, urls @ browser_download_url a' # urls',
                      ev3 @ first_attempt env ctx r f content @
                      [overwrite_warning env f,
                       CallDeleteReleaseAsset (owner ctx) (repo ctx) (asset_id a),
                       Info (''Deleted existing asset: '' @ basename env f),
                       CallUploadReleaseAsset (owner ctx) (repo ctx) (release_id r)
                         (basename env f) content,
                       uploaded (basename env f)] @ ev',
                      w5))"
      by (simp split: prod.splits)
  qed
qed

theorem conflict_overwrite_witness:
  "find (\<lambda>a. asset_name a = ''a.tar.gz'') (assets (good_release [old_asset])) = Some old_asset \<and>
   (\<exists>evs w'.
      upload_files demo_env demo_ctx (Some (good_release [old_asset])) False
        ([] @ ''/w/dist/a.tar.gz'' # [''/w/dist/b.tar.gz'']) stocked_repo =
        (None,
         [''https://host.test/download/a.tar.gz'', ''https://host.test/download/b.tar.gz''],
         evs, w') \<and>
      filter is_remote_call evs =
        [CallUploadReleaseAsset ''acme'' ''tool'' 7 ''a.tar.gz'' ''aaa'',
         CallDeleteReleaseAsset ''acme'' ''tool'' 3,
         CallUploadReleaseAsset ''acme'' ''tool'' 7 ''a.tar.gz'' ''aaa'',
         CallUploadReleaseAsset ''acme'' ''tool'' 7 ''b.tar.gz'' ''bb''])"
proof -
  let ?inp = "demo_inputs (array_text [''dist/*.tar.gz'']) [] [] (JsString ''false'')"
  let ?p = "\<lparr>assetPaths = [JStr ''dist/*.tar.gz''], targetTag = ''v1.0.0'',
             trimmedReleaseName = []\<rparr>"
  let ?r = "good_release [old_asset]"
  let ?a = "''/w/dist/a.tar.gz''" and ?b = "''/w/dist/b.tar.gz''"
  let ?ev1 = "[Info ''Attempting to fetch release by tag: v1.0.0'',
      Info ''Repository: acme/tool'', CallGetReleaseByTag ''acme'' ''tool'' ''v1.0.0'',
      Info ''Found release by tag: Good Name (v1.0.0)'']"
  let ?ev2 = "[CallGlob (JStr ''dist/*.tar.gz''), CallStatSync ?a, CallStatSync ?b,
      match_report demo_env (JStr ''dist/*.tar.gz'') [?a, ?b]]"
  let ?e = "JsError (Some 422) ''Validation Failed: already_exists''"
  let ?new = "\<lparr>asset_id = 10, asset_name = ''a.tar.gz'',
               browser_download_url = ''https://host.test/download/a.tar.gz''\<rparr>"
  let ?w4 = "\<lparr>releases = [good_release [?new]], next_id = 11\<rparr>"
  let ?newb = "\<lparr>asset_id = 11, asset_name = ''b.tar.gz'',
               browser_download_url = ''https://host.test/download/b.tar.gz''\<rparr>"
  let ?w5 = "\<lparr>releases = [good_release [?new, ?newb]], next_id = 12\<rparr>"
  let ?evb = "[CallReadFileSync ?b, Info ''Uploading: b.tar.gz (2 bytes)'',
      CallUploadReleaseAsset ''acme'' ''tool'' 7 ''b.tar.gz'' ''bb'', uploaded ''b.tar.gz'']"
  have parse: "parse_inputs demo_env demo_ctx ?inp = Inr ?p"
    by code_simp
  have allow: "\<not> denyOverwriteBool (denyOverwrite ?inp)"
    by code_simp
  have res: "resolve_release demo_env demo_ctx (targetTag ?p) (trimmedReleaseName ?p) stocked_repo =
      Some (Inr (Some ?r), ?ev1)"
    by code_simp
  have col: "collect_files demo_env stocked_repo (assetPaths ?p) = (Inr [?a, ?b], ?ev2)"
    by code_simp
  have plan: "dedup [?a, ?b] = [] @ ?a # [?b]"
    by code_simp
  have pre: "upload_files demo_env demo_ctx (Some ?r) False [] stocked_repo =
      (None, [], [], stocked_repo)"
    by simp
  have read: "readFileSync demo_env ?a stocked_repo = Inr ''aaa''"
    by code_simp
  have up: "uploadReleaseAsset demo_env (owner demo_ctx) (repo demo_ctx) (release_id ?r)
      (basename demo_env ?a) ''aaa'' stocked_repo = (Inl ?e, stocked_repo)"
    by code_simp
  have conflict: "status ?e = Some 422" "js_includes (message ?e) ''already_exists''"
    by code_simp+
  have known: "find (\<lambda>a. asset_name a = basename demo_env ?a) (assets ?r) = Some old_asset"
    by code_simp
  have known': "find (\<lambda>a. asset_name a = ''a.tar.gz'') (assets ?r) = Some old_asset"
    by code_simp
  have del: "deleteReleaseAsset demo_env (owner demo_ctx) (repo demo_ctx) (asset_id old_asset)
      stocked_repo = (Inr (), fresh_repo)"
    by code_simp
  have again: "uploadReleaseAsset demo_env (owner demo_ctx) (repo demo_ctx) (release_id ?r)
      (basename demo_env ?a) ''aaa'' fresh_repo = (Inr ?new, ?w4)"
    by code_simp
  have rest: "upload_files demo_env demo_ctx (Some ?r) False [?b] ?w4 =
      (None, [''https://host.test/download/b.tar.gz''], ?evb, ?w5)"
    by code_simp
  have first: "first_attempt demo_env demo_ctx ?r ?a ''aaa'' =
      [CallReadFileSync ?a, Info ''Uploading: a.tar.gz (3 bytes)'',
       CallUploadReleaseAsset ''acme'' ''tool'' 7 ''a.tar.gz'' ''aaa'']"
    by code_simp
  have names: "basename demo_env ?a = ''a.tar.gz''" "owner demo_ctx = ''acme''"
    "repo demo_ctx = ''tool''" "release_id ?r = 7" "asset_id old_asset = 3"
    by code_simp+
  from conflict_overwrite [OF parse allow res col plan pre read up conflict refl] known del again
  have "upload_files demo_env demo_ctx (Some ?r) False ([] @ ?a # [?b]) stocked_repo =
      (case upload_files demo_env demo_ctx (Some ?r) False [?b] ?w4 of
         (thrown, urls', ev', w5) \<Rightarrow>
           (thrown, [] @ browser_download_url ?new # urls',
            [] @ first_attempt demo_env demo_ctx ?r ?a ''aaa'' @
            [overwrite_warning demo_env ?a,
             CallDeleteReleaseAsset (owner demo_ctx) (repo demo_ctx) (asset_id old_asset),
             Info (''Deleted existing asset: '' @ basename demo_env ?a),
             CallUploadReleaseAsset (owner demo_ctx) (repo demo_ctx) (release_id ?r)
               (basename demo_env ?a) ''aaa'',
             uploaded (basename demo_env ?a)] @ ev',
            w5))"
    by blast
  then have loop: "upload_files demo_env demo_ctx (Some ?r) False ([] @ ?a # [?b]) stocked_repo =
      (None,
       [''https://host.test/download/a.tar.gz'', ''https://host.test/download/b.tar.gz''],
       first_attempt demo_env demo_ctx ?r ?a ''aaa'' @
       [overwrite_warning demo_env ?a, CallDeleteReleaseAsset ''acme'' ''tool'' 3,
        Info (''Deleted existing asset: '' @ ''a.tar.gz''),
        CallUploadReleaseAsset ''acme'' ''tool'' 7 ''a.tar.gz'' ''aaa'',
        uploaded ''a.tar.gz''] @ ?evb,
       ?w5)"
    unfolding rest names by simp
  have calls: "filter is_remote_call
      (first_attempt demo_env demo_ctx ?r ?a ''aaa'' @
       [overwrite_warning demo_env ?a, CallDeleteReleaseAsset ''acme'' ''tool'' 3,
        Info (''Deleted existing asset: '' @ ''a.tar.gz''),
        CallUploadReleaseAsset ''acme'' ''tool'' 7 ''a.tar.gz'' ''aaa'',
        uploaded ''a.tar.gz''] @ ?evb) =
      [CallUploadReleaseAsset ''acme'' ''tool'' 7 ''a.tar.gz'' ''aaa'',
       CallDeleteReleaseAsset ''acme'' ''tool'' 3,
       CallUploadReleaseAsset ''acme'' ''tool'' 7 ''a.tar.gz'' ''aaa'',
       CallUploadReleaseAsset ''acme'' ''tool'' 7 ''b.tar.gz'' ''bb'']"
    unfolding first by (simp add: overwrite_warning_def uploaded_def)
  from known' loop calls show ?thesis
    by blast
qed

subsection \<open>The output\<close>

lemma no_output_filter:
  "(\<And>k v. SetOutput k v \<notin> set evs) \<Longrightarrow> filter is_SetOutput evs = []"
proof (induction evs)
  case Nil
  then show ?case by simp
next
  case (Cons ev evs)
  then show ?case by (cases ev) auto
qed

lemma quiet_no_output: "\<forall>ev \<in> set evs. quiet ev \<Longrightarrow> filter is_SetOutput evs = []"
  by (intro no_output_filter) (auto dest: quiet_SetOutput)

lemma upload_call_reads:
  "upload_call env ctx release fileName fileContent w = (res, evs, w') \<Longrightarrow> filter is_read evs = []"
  by (auto simp: upload_call_def split: option.splits prod.splits)

lemma replace_asset_reads:
  "replace_asset env ctx release fileName fileContent error w = (res, evs, w') \<Longrightarrow>
   filter is_read evs = []"
  by (auto simp: replace_asset_def split: option.splits prod.splits sum.splits
           dest: upload_call_reads)

lemma upload_file_reads:
  assumes "upload_file env ctx release deny f w = (res, evs, w')"
  shows "filter is_read evs = [CallReadFileSync f]"
proof (cases "readFileSync env f w")
  case (Inl e)
  with assms have "evs = [CallReadFileSync f]"
    by (simp add: upload_file_def)
  then show ?thesis by simp
next
  case (Inr content)
  obtain r1 ev1 w1 where up: "upload_call env ctx release (basename env f) content w = (r1, ev1, w1)"
    by (cases "upload_call env ctx release (basename env f) content w")
  note e1 = upload_call_reads [OF up]
  show ?thesis
  proof (cases r1)
    case a: (Inr a)
    with assms Inr up e1 show ?thesis
      by (auto simp: upload_file_def Let_def uploaded_def)
  next
    case err: (Inl error)
    obtain r2 ev2 w2 where
      rep: "replace_asset env ctx release (basename env f) content error w1 = (r2, ev2, w2)"
      by (cases "replace_asset env ctx release (basename env f) content error w1")
    note e2 = replace_asset_reads [OF rep]
    from assms Inr up err rep e1 e2 show ?thesis
      by (auto simp: upload_file_def Let_def uploaded_def split: if_splits sum.splits)
  qed
qed

text \<open>A URL pushed by a turn of the loop is the URL of an asset the service returned.\<close>

lemma upload_file_Inr:
  assumes "upload_file env ctx (Some r) deny f w = (Inr url, evs, w')"
  shows "\<exists>content w1 a.
           readFileSync env f w = Inr content \<and>
           uploadReleaseAsset env (owner ctx) (repo ctx) (release_id r) (basename env f) content w1 =
             (Inr a, w') \<and>
           url = browser_download_url a"
proof (cases "readFileSync env f w")
  case (Inl e)
  with assms show ?thesis
    by (simp add: upload_file_def)
next
  case (Inr content)
  obtain r1 w1 where up:
    "uploadReleaseAsset env (owner ctx) (repo ctx) (release_id r) (basename env f) content w =
       (r1, w1)"
    by (cases "uploadReleaseAsset env (owner ctx) (repo ctx) (release_id r) (basename env f)
                 content w")
  show ?thesis
  proof (cases r1)
    case a: (Inr a)
    with assms Inr up show ?thesis
      by (auto simp: upload_file_def upload_call_def Let_def)
  next
    case err: (Inl e)
    with assms Inr up have c: "status e = Some 422" "js_includes (message e) ''already_exists''"
      and "\<not> deny"
      by (auto simp: upload_file_def upload_call_def Let_def split: if_splits)
    then have flag: "deny = False" by simp
    from assms upload_file_overwrite [OF Inr up [unfolded err] c] flag
    show ?thesis
      using Inr
      by (auto split: option.splits prod.splits sum.splits)
  qed
qed

lemma upload_files_success:
  assumes "upload_files env ctx (Some r) deny files w = (None, urls, evs, w')"
  shows "list_all2
           (\<lambda>f url. \<exists>w0 content w1 w2 a.
              readFileSync env f w0 = Inr content \<and>
              uploadReleaseAsset env (owner ctx) (repo ctx) (release_id r) (basename env f)
                content w1 = (Inr a, w2) \<and>
              url = browser_download_url a) files urls \<and>
         filter is_read evs = map CallReadFileSync files"
  using assms
proof (induction files arbitrary: w urls evs)
  case Nil
  then show ?case by simp
next
  case (Cons f fs)
  obtain r1 ev1 w1 where one: "upload_file env ctx (Some r) deny f w = (r1, ev1, w1)"
    by (cases "upload_file env ctx (Some r) deny f w")
  with Cons.prems obtain url where url: "r1 = Inr url"
    by (cases r1) auto
  obtain t2 us2 ev2 w2 where rest: "upload_files env ctx (Some r) deny fs w1 = (t2, us2, ev2, w2)"
    by (cases "upload_files env ctx (Some r) deny fs w1")
  from Cons.prems one url rest have eq: "t2 = None" "urls = url # us2" "evs = ev1 @ ev2" "w2 = w'"
    by simp_all
  from upload_file_Inr [OF one [unfolded url]] have
    "\<exists>w0 content w1 w2 a.
              readFileSync env f w0 = Inr content \<and>
              uploadReleaseAsset env (owner ctx) (repo ctx) (release_id r) (basename env f)
                content w1 = (Inr a, w2) \<and>
              url = browser_download_url a"
    by blast
  with Cons.IH [OF rest [unfolded eq(1) eq(4)]] upload_file_reads [OF one] eq show ?case
    by simp
qed

text \<open>
  Claim C6. In a run that returns without a call of \<open>core.setFailed\<close>, the loop
  over the plan \<open>dedup files\<close> ended with no error and with the list \<open>urls\<close>;
  \<open>core.setOutput\<close> is called once, for \<open>download_urls\<close>, with \<open>JSON.stringify\<close> of
  the array of the strings \<open>urls\<close>. The list has one URL for each file of the
  plan, at the same position: the download URL of an asset that the service
  returned for an upload under the base name of that file. The files were read,
  and so uploaded, in the order of the plan.
\<close>

theorem download_urls_output:
  assumes run: "run env ctx inp w = Some (Returned, evs, w')"
    and ok: "\<forall>m. SetFailed m \<notin> set evs"
  shows "\<exists>p r ev1 files ev2 urls ev3.
      parse_inputs env ctx inp = Inr p \<and>
      resolve_release env ctx (targetTag p) (trimmedReleaseName p) w = Some (Inr (Some r), ev1) \<and>
      collect_files env w (assetPaths p) = (Inr files, ev2) \<and>
      upload_files env ctx (Some r) (denyOverwriteBool (denyOverwrite inp)) (dedup files) w =
        (None, urls, ev3, w') \<and>
      filter is_SetOutput evs =
        [SetOutput ''download_urls'' (JSON_stringify env (JArr (map JStr urls)))] \<and>
      length urls = length (dedup files) \<and>
      list_all2
        (\<lambda>f url. \<exists>w0 content w1 w2 a.
           readFileSync env f w0 = Inr content \<and>
           uploadReleaseAsset env (owner ctx) (repo ctx) (release_id r) (basename env f)
             content w1 = (Inr a, w2) \<and>
           url = browser_download_url a) (dedup files) urls \<and>
      filter is_read ev3 = map CallReadFileSync (dedup files)"
  using run
proof (cases rule: run_cases)
  case (invalid msg)
  then have "SetFailed msg \<in> set evs" by simp
  with ok show ?thesis by blast
next
  case (unresolved p ev1)
  from resolve_release_events [OF unresolved(2)] obtain m where "SetFailed m \<in> set ev1"
    by blast
  with unresolved(3) have "SetFailed m \<in> set evs" by simp
  with ok show ?thesis by blast
next
  case (unreadable p release ev1 e ev2)
  then show ?thesis by simp
next
  case (collected p release ev1 files ev2 ev3)
  note r = resolve_release_events [OF collected(2)]
  note t = target_info_quiet [of "targetTag p" "trimmedReleaseName p"]
  note c = collect_files_quiet [OF collected(3)]
  from collected(4) show ?thesis
  proof (cases rule: upload_and_report_cases)
    case empty
    with collected(5) have "SetFailed ''No files found to upload'' \<in> set evs"
      by simp
    with ok show ?thesis by blast
  next
    case (thrown e urls ev)
    then show ?thesis by simp
  next
    case (finished r' urls ev)
    note u = upload_files_events [OF finished(3)]
    note s = upload_files_success [OF finished(3) [unfolded finished(2)]]
    have "filter is_SetOutput (target_info (targetTag p) (trimmedReleaseName p)) = []"
      "filter is_SetOutput ev1 = []" "filter is_SetOutput ev2 = []"
      "filter is_SetOutput (plan_info files (dedup files)) = []" "filter is_SetOutput ev = []"
      using r t c u plan_info_quiet [of files "dedup files"]
      by (auto intro: no_output_filter quiet_no_output)
    with collected(5) finished(5)
    have out: "filter is_SetOutput evs =
        [SetOutput ''download_urls'' (JSON_stringify env (JArr (map JStr urls)))]"
      by (simp add: report_Some)
    from u have len: "length urls = length (dedup files)" by simp
    show ?thesis
      using collected(1,3) collected(2) [unfolded finished(2)]
        finished(3) [unfolded finished(2)] out len s
      by blast
  qed
qed

theorem download_urls_output_witness:
  "assetPaths \<lparr>assetPaths = [JStr ''dist/*.tar.gz''], targetTag = ''v1.0.0'',
               trimmedReleaseName = []\<rparr> = [JStr ''dist/*.tar.gz''] \<and>
   glob demo_env (JStr ''dist/*.tar.gz'') fresh_repo =
     Inr [''/w/dist/a.tar.gz'', ''/w/dist/b.tar.gz''] \<and>
   assets (good_release []) = [] \<and>
   (\<exists>evs w'.
      run demo_env demo_ctx
        (demo_inputs (array_text [''dist/*.tar.gz'']) [] [] (JsString ''true'')) fresh_repo =
        Some (Returned, evs, w') \<and>
      filter is_SetOutput evs =
        [SetOutput ''download_urls''
           (array_text [''https://host.test/download/a.tar.gz'',
                        ''https://host.test/download/b.tar.gz''])])"
proof -
  let ?inp = "demo_inputs (array_text [''dist/*.tar.gz'']) [] [] (JsString ''true'')"
  let ?p = "\<lparr>assetPaths = [JStr ''dist/*.tar.gz''], targetTag = ''v1.0.0'',
             trimmedReleaseName = []\<rparr>"
  let ?a = "''/w/dist/a.tar.gz''" and ?b = "''/w/dist/b.tar.gz''"
  have g: "glob demo_env (JStr ''dist/*.tar.gz'') fresh_repo = Inr [?a, ?b]"
    by code_simp
  have none: "assets (good_release []) = []"
    by code_simp
  have "(case run demo_env demo_ctx ?inp fresh_repo of
           None \<Rightarrow> False
         | Some (out, evs, w') \<Rightarrow> out = Returned \<and> filter is_SetFailed evs = [])"
    by code_simp
  then obtain evs w' where
    run: "run demo_env demo_ctx ?inp fresh_repo = Some (Returned, evs, w')"
    and nf: "filter is_SetFailed evs = []"
    by (cases "run demo_env demo_ctx ?inp fresh_repo") auto
  have ok: "\<forall>m. SetFailed m \<notin> set evs"
  proof
    fix m
    have "SetFailed m \<in> set evs \<Longrightarrow> SetFailed m \<in> set (filter is_SetFailed evs)"
      by simp
    with nf show "SetFailed m \<notin> set evs" by auto
  qed
  have parse: "parse_inputs demo_env demo_ctx ?inp = Inr ?p"
    by code_simp
  have res: "fst (the (resolve_release demo_env demo_ctx (targetTag ?p) (trimmedReleaseName ?p)
      fresh_repo)) = Inr (Some (good_release []))"
    by code_simp
  have col: "fst (collect_files demo_env fresh_repo (assetPaths ?p)) = Inr [?a, ?b]"
    by code_simp
  have urls: "fst (snd (upload_files demo_env demo_ctx (Some (good_release []))
      (denyOverwriteBool (denyOverwrite ?inp)) (dedup [?a, ?b]) fresh_repo)) =
      [''https://host.test/download/a.tar.gz'', ''https://host.test/download/b.tar.gz'']"
    by code_simp
  have str: "JSON_stringify demo_env
      (JArr (map JStr [''https://host.test/download/a.tar.gz'',
                       ''https://host.test/download/b.tar.gz''])) =
      array_text [''https://host.test/download/a.tar.gz'', ''https://host.test/download/b.tar.gz'']"
    by code_simp
  from download_urls_output [OF run ok] obtain p r ev1 files ev2 us ev3 where
    "parse_inputs demo_env demo_ctx ?inp = Inr p"
    and "resolve_release demo_env demo_ctx (targetTag p) (trimmedReleaseName p) fresh_repo =
      Some (Inr (Some r), ev1)"
    and "collect_files demo_env fresh_repo (assetPaths p) = (Inr files, ev2)"
    and "upload_files demo_env demo_ctx (Some r) (denyOverwriteBool (denyOverwrite ?inp))
      (dedup files) fresh_repo = (None, us, ev3, w')"
    and out: "filter is_SetOutput evs =
      [SetOutput ''download_urls'' (JSON_stringify demo_env (JArr (map JStr us)))]"
    by blast
  with parse res col urls
  have "us = [''https://host.test/download/a.tar.gz'', ''https://host.test/download/b.tar.gz'']"
    by simp
  with out str have "filter is_SetOutput evs =
        [SetOutput ''download_urls''
           (array_text [''https://host.test/download/a.tar.gz'',
                        ''https://host.test/download/b.tar.gz''])]"
    by simp
  with run g none show ?thesis
    by simp
qed

lemma run_finished:
  assumes "parse_inputs env ctx inp = Inr p"
    and "resolve_release env ctx (targetTag p) (trimmedReleaseName p) w =
         Some (Inr (Some r), ev1)"
    and "collect_files env w (assetPaths p) = (Inr files, ev2)"
    and "dedup files \<noteq> []"
    and "upload_files env ctx (Some r) (denyOverwriteBool (denyOverwrite inp)) (dedup files) w =
         (None, urls, ev3, w')"
  shows "run env ctx inp w =
    Some (Returned,
          target_info (targetTag p) (trimmedReleaseName p) @ ev1 @ ev2 @
          plan_info files (dedup files) @ ev3 @
          [SetOutput ''download_urls'' (JSON_stringify env (JArr (map JStr urls))),
           Info (check_mark @ '' Successfully uploaded '' @ show_nat (length urls) @
                 '' asset(s)''),
           Summary ''Release Assets Uploaded''
             (''Release: '' @ show_name r @ '' ('' @ tag_name r @ '')'')
             (map (\<lambda>url. ''['' @ basename env url @ ''](''  @ url @ '')'') urls)], w')"
  using assms
  by (simp add: run_def run_parsed_def upload_and_report_def report_Some)

text \<open>
  Claim C10. \<open>denyOverwriteBool\<close> holds of the boolean \<open>true\<close> and of the string
  \<open>true\<close> and of nothing else, so not of \<open>True\<close>, \<open>TRUE\<close>, \<open>1\<close>, \<open>yes\<close>, the empty
  string or \<open>undefined\<close>. The run follows it. Let the files \<open>pre\<close> of the plan be
  uploaded and let the service refuse the next file \<open>f\<close> with status 422 and
  \<open>already_exists\<close>. When the raw value is one of the two, the run ends there:
  \<open>core.setFailed\<close>, the conflict thrown, nothing deleted. When it is any other
  value, the run is the run with the boolean \<open>false\<close>: the asset of that name known
  for the release is deleted, the file is uploaded again, and if the files behind
  \<open>f\<close> are uploaded too the run returns with the output set.
\<close>

theorem deny_overwrite_only_true:
  "(denyOverwriteBool v \<longleftrightarrow> v = JsBoolean True \<or> v = JsString ''true'') \<and>
   list_all (\<lambda>x. denyOverwriteBool x = False)
     [JsString ''True'', JsString ''TRUE'', JsString ''1'', JsString ''yes'', JsString [],
      JsUndefined] \<and>
   (\<not> (v = JsBoolean True \<or> v = JsString ''true'') \<longrightarrow>
      run env ctx (inp\<lparr>denyOverwrite := v\<rparr>) w =
        run env ctx (inp\<lparr>denyOverwrite := JsBoolean False\<rparr>) w) \<and>
   (\<forall>p r ev1 files ev2 pre f post urls ev3 w1 content e w2.
      parse_inputs env ctx inp = Inr p \<and>
      resolve_release env ctx (targetTag p) (trimmedReleaseName p) w =
        Some (Inr (Some r), ev1) \<and>
      collect_files env w (assetPaths p) = (Inr files, ev2) \<and>
      dedup files = pre @ f # post \<and>
      upload_files env ctx (Some r) (v = JsBoolean True \<or> v = JsString ''true'') pre w =
        (None, urls, ev3, w1) \<and>
      readFileSync env f w1 = Inr content \<and>
      uploadReleaseAsset env (owner ctx) (repo ctx) (release_id r) (basename env f) content w1 =
        (Inl e, w2) \<and>
      status e = Some 422 \<and> js_includes (message e) ''already_exists'' \<longrightarrow>
      (v = JsBoolean True \<or> v = JsString ''true'' \<longrightarrow>
         run env ctx (inp\<lparr>denyOverwrite := v\<rparr>) w =
           Some (Thrown e,
                 target_info (targetTag p) (trimmedReleaseName p) @ ev1 @ ev2 @
                 plan_info files (dedup files) @ ev3 @ first_attempt env ctx r f content @
                 [SetFailed (conflict_message (basename env f))], w2)) \<and>
      (\<not> (v = JsBoolean True \<or> v = JsString ''true'') \<longrightarrow>
         (\<forall>a u w3 a' w4 urls' ev4 w5.
            find (\<lambda>x. asset_name x = basename env f) (assets r) = Some a \<and>
            deleteReleaseAsset env (owner ctx) (repo ctx) (asset_id a) w2 = (Inr u, w3) \<and>
            uploadReleaseAsset env (owner ctx) (repo ctx) (release_id r) (basename env f)
              content w3 = (Inr a', w4) \<and>
            upload_files env ctx (Some r) False post w4 = (None, urls', ev4, w5) \<longrightarrow>
            run env ctx (inp\<lparr>denyOverwrite := v\<rparr>) w =
              Some (Returned,
                    target_info (targetTag p) (trimmedReleaseName p) @ ev1 @ ev2 @
                    plan_info files (dedup files) @ ev3 @ first_attempt env ctx r f content @
                    [overwrite_warning env f,
                     CallDeleteReleaseAsset (owner ctx) (repo ctx) (asset_id a),
                     Info (''Deleted existing asset: '' @ basename env f),
                     CallUploadReleaseAsset (owner ctx) (repo ctx) (release_id r)
                       (basename env f) content,
                     uploaded (basename env f)] @ ev4 @
                    [SetOutput ''download_urls''
                       (JSON_stringify env
                          (JArr (map JStr (urls @ browser_download_url a' # urls')))),
                     Info (check_mark @ '' Successfully uploaded '' @
                           show_nat (length (urls @ browser_download_url a' # urls')) @
                           '' asset(s)''),
                     Summary ''Release Assets Uploaded''
                       (''Release: '' @ show_name r @ '' ('' @ tag_name r @ '')'')
                       (map (\<lambda>url. ''['' @ basename env url @ ''](''  @ url @ '')'')
                          (urls @ browser_download_url a' # urls'))], w5))))"
proof -
  let ?flag = "v = JsBoolean True \<or> v = JsString ''true''"
  let ?inp = "inp\<lparr>denyOverwrite := v\<rparr>"
  have flag: "denyOverwriteBool v \<longleftrightarrow> ?flag"
    by (auto simp: denyOverwriteBool_def)
  have examples: "list_all (\<lambda>x. denyOverwriteBool x = False)
     [JsString ''True'', JsString ''TRUE'', JsString ''1'', JsString ''yes'', JsString [],
      JsUndefined]"
    by (simp add: denyOverwriteBool_def)
  have same: "run env ctx ?inp w = run env ctx (inp\<lparr>denyOverwrite := JsBoolean False\<rparr>) w"
    if "\<not> ?flag"
  proof -
    from that have "denyOverwriteBool v = denyOverwriteBool (JsBoolean False)"
      by (simp add: denyOverwriteBool_def)
    then show ?thesis by (rule run_deny_cong)
  qed
  have used: "denyOverwriteBool (denyOverwrite ?inp) = ?flag"
    using flag by simp
  have on_conflict:
    "(?flag \<longrightarrow>
         run env ctx ?inp w =
           Some (Thrown e,
                 target_info (targetTag p) (trimmedReleaseName p) @ ev1 @ ev2 @
                 plan_info files (dedup files) @ ev3 @ first_attempt env ctx r f content @
                 [SetFailed (conflict_message (basename env f))], w2)) \<and>
      (\<not> ?flag \<longrightarrow>
         (\<forall>a u w3 a' w4 urls' ev4 w5.
            find (\<lambda>x. asset_name x = basename env f) (assets r) = Some a \<and>
            deleteReleaseAsset env (owner ctx) (repo ctx) (asset_id a) w2 = (Inr u, w3) \<and>
            uploadReleaseAsset env (owner ctx) (repo ctx) (release_id r) (basename env f)
              content w3 = (Inr a', w4) \<and>
            upload_files env ctx (Some r) False post w4 = (None, urls', ev4, w5) \<longrightarrow>
            run env ctx ?inp w =
              Some (Returned,
                    target_info (targetTag p) (trimmedReleaseName p) @ ev1 @ ev2 @
                    plan_info files (dedup files) @ ev3 @ first_attempt env ctx r f content @
                    [overwrite_warning env f,
                     CallDeleteReleaseAsset (owner ctx) (repo ctx) (asset_id a),
                     Info (''Deleted existing asset: '' @ basename env f),
                     CallUploadReleaseAsset (owner ctx) (repo ctx) (release_id r)
                       (basename env f) content,
                     uploaded (basename env f)] @ ev4 @
                    [SetOutput ''download_urls''
                       (JSON_stringify env
                          (JArr (map JStr (urls @ browser_download_url a' # urls')))),
                     Info (check_mark @ '' Successfully uploaded '' @
                           show_nat (length (urls @ browser_download_url a' # urls')) @
                           '' asset(s)''),
                     Summary ''Release Assets Uploaded''
                       (''Release: '' @ show_name r @ '' ('' @ tag_name r @ '')'')
                       (map (\<lambda>url. ''['' @ basename env url @ ''](''  @ url @ '')'')
                          (urls @ browser_download_url a' # urls'))], w5)))"
    if parse: "parse_inputs env ctx inp = Inr p"
      and res: "resolve_release env ctx (targetTag p) (trimmedReleaseName p) w =
        Some (Inr (Some r), ev1)"
      and col: "collect_files env w (assetPaths p) = (Inr files, ev2)"
      and plan: "dedup files = pre @ f # post"
      and pre: "upload_files env ctx (Some r) ?flag pre w = (None, urls, ev3, w1)"
      and read: "readFileSync env f w1 = Inr content"
      and up: "uploadReleaseAsset env (owner ctx) (repo ctx) (release_id r) (basename env f)
                 content w1 = (Inl e, w2)"
      and conflict: "status e = Some 422" "js_includes (message e) ''already_exists''"
    for p r ev1 files ev2 pre f post urls ev3 w1 content e w2
  proof (intro conjI impI allI)
    have parse': "parse_inputs env ctx ?inp = Inr p"
      using parse by (simp add: parse_inputs_deny_irrelevant)
    {
      assume on: ?flag
      from upload_file_conflict [OF read up conflict, of True]
      have turn: "upload_file env ctx (Some r) True f w1 =
          (Inl e, first_attempt env ctx r f content @
                  [SetFailed (conflict_message (basename env f))], w2)"
        by simp
      from pre on have pre': "upload_files env ctx (Some r) True pre w = (None, urls, ev3, w1)"
        by simp
      from upload_files_stop [OF pre' turn, of post] plan on used
      have "upload_files env ctx (Some r) (denyOverwriteBool (denyOverwrite ?inp)) (dedup files) w =
          (Some e, urls,
           ev3 @ first_attempt env ctx r f content @
           [SetFailed (conflict_message (basename env f))], w2)"
        by simp
      from run_thrown_in_upload [OF parse' res col this]
      show "run env ctx ?inp w =
           Some (Thrown e,
                 target_info (targetTag p) (trimmedReleaseName p) @ ev1 @ ev2 @
                 plan_info files (dedup files) @ ev3 @ first_attempt env ctx r f content @
                 [SetFailed (conflict_message (basename env f))], w2)"
        by simp
    }
    fix a :: asset and u w3 a' w4 urls' ev4 w5
    assume off: "\<not> ?flag"
      and b: "find (\<lambda>x. asset_name x = basename env f) (assets r) = Some a \<and>
            deleteReleaseAsset env (owner ctx) (repo ctx) (asset_id a) w2 = (Inr u, w3) \<and>
            uploadReleaseAsset env (owner ctx) (repo ctx) (release_id r) (basename env f)
              content w3 = (Inr a', w4) \<and>
            upload_files env ctx (Some r) False post w4 = (None, urls', ev4, w5)"
    from upload_file_overwrite [OF read up conflict] b
    have turn: "upload_file env ctx (Some r) False f w1 =
        (Inr (browser_download_url a'),
         first_attempt env ctx r f content @
         [overwrite_warning env f,
          CallDeleteReleaseAsset (owner ctx) (repo ctx) (asset_id a),
          Info (''Deleted existing asset: '' @ basename env f),
          CallUploadReleaseAsset (owner ctx) (repo ctx) (release_id r) (basename env f) content,
          uploaded (basename env f)], w4)"
      by simp
    from pre off have pre': "upload_files env ctx (Some r) False pre w = (None, urls, ev3, w1)"
      by simp
    from upload_files_continue [OF pre' turn, of post] b plan off used
    have loop: "upload_files env ctx (Some r) (denyOverwriteBool (denyOverwrite ?inp))
        (dedup files) w =
        (None, urls @ browser_download_url a' # urls',
         ev3 @ (first_attempt env ctx r f content @
         [overwrite_warning env f,
          CallDeleteReleaseAsset (owner ctx) (repo ctx) (asset_id a),
          Info (''Deleted existing asset: '' @ basename env f),
          CallUploadReleaseAsset (owner ctx) (repo ctx) (release_id r) (basename env f) content,
          uploaded (basename env f)]) @ ev4, w5)"
      by simp
    have ne: "dedup files \<noteq> []"
      using plan by simp
    from run_finished [OF parse' res col ne loop]
    show "run env ctx ?inp w =
              Some (Returned,
                    target_info (targetTag p) (trimmedReleaseName p) @ ev1 @ ev2 @
                    plan_info files (dedup files) @ ev3 @ first_attempt env ctx r f content @
                    [overwrite_warning env f,
                     CallDeleteReleaseAsset (owner ctx) (repo ctx) (asset_id a),
                     Info (''Deleted existing asset: '' @ basename env f),
                     CallUploadReleaseAsset (owner ctx) (repo ctx) (release_id r)
                       (basename env f) content,
                     uploaded (basename env f)] @ ev4 @
                    [SetOutput ''download_urls''
                       (JSON_stringify env
                          (JArr (map JStr (urls @ browser_download_url a' # urls')))),
                     Info (check_mark @ '' Successfully uploaded '' @
                           show_nat (length (urls @ browser_download_url a' # urls')) @
                           '' asset(s)''),
                     Summary ''Release Assets Uploaded''
                       (''Release: '' @ show_name r @ '' ('' @ tag_name r @ '')'')
                       (map (\<lambda>url. ''['' @ basename env url @ ''](''  @ url @ '')'')
                          (urls @ browser_download_url a' # urls'))], w5)"
      by simp
  qed
  show ?thesis (is "?A \<and> ?B \<and> ?C \<and> ?D")
  proof (intro conjI)
    show ?A by (rule flag)
    show ?B by (rule examples)
    show ?C using same by blast
    show ?D
    proof (intro allI impI, elim conjE, goal_cases)
      case (1 p r ev1 files ev2 pre f post urls ev3 w1 content e w2)
      from on_conflict [OF 1] show ?case .
    qed
  qed
qed

theorem deny_overwrite_only_true_witness:
  "denyOverwriteBool (JsString ''true'') \<and> \<not> denyOverwriteBool (JsString ''True'') \<and>
   (\<exists>evs.
      run demo_env demo_ctx
        (demo_inputs (array_text [''dist/*.tar.gz'']) [] [] (JsString ''true'')) stocked_repo =
        Some (Thrown (JsError (Some 422) ''Validation Failed: already_exists''),
              evs @ [SetFailed (conflict_message ''a.tar.gz'')], stocked_repo) \<and>
      filter is_remote_call evs =
        [CallGetReleaseByTag ''acme'' ''tool'' ''v1.0.0'',
         CallUploadReleaseAsset ''acme'' ''tool'' 7 ''a.tar.gz'' ''aaa'']) \<and>
   run demo_env demo_ctx
     (demo_inputs (array_text [''dist/*.tar.gz'']) [] [] (JsString ''True'')) stocked_repo =
   run demo_env demo_ctx
     (demo_inputs (array_text [''dist/*.tar.gz'']) [] [] (JsBoolean False)) stocked_repo \<and>
   (\<exists>evs w'.
      run demo_env demo_ctx
        (demo_inputs (array_text [''dist/*.tar.gz'']) [] [] (JsString ''True'')) stocked_repo =
        Some (Returned, evs, w') \<and>
      filter is_remote_call evs =
        [CallGetReleaseByTag ''acme'' ''tool'' ''v1.0.0'',
         CallUploadReleaseAsset ''acme'' ''tool'' 7 ''a.tar.gz'' ''aaa'',
         CallDeleteReleaseAsset ''acme'' ''tool'' 3,
         CallUploadReleaseAsset ''acme'' ''tool'' 7 ''a.tar.gz'' ''aaa'',
         CallUploadReleaseAsset ''acme'' ''tool'' 7 ''b.tar.gz'' ''bb''] \<and>
      filter is_SetFailed evs = [])"
proof -
  let ?paths = "array_text [''dist/*.tar.gz'']"
  let ?inp = "demo_inputs ?paths [] [] JsUndefined"
  let ?p = "\<lparr>assetPaths = [JStr ''dist/*.tar.gz''], targetTag = ''v1.0.0'',
             trimmedReleaseName = []\<rparr>"
  let ?r = "good_release [old_asset]"
  let ?a = "''/w/dist/a.tar.gz''" and ?b = "''/w/dist/b.tar.gz''"
  let ?ev1 = "[Info ''Attempting to fetch release by tag: v1.0.0'',
      Info ''Repository: acme/tool'', CallGetReleaseByTag ''acme'' ''tool'' ''v1.0.0'',
      Info ''Found release by tag: Good Name (v1.0.0)'']"
  let ?ev2 = "[CallGlob (JStr ''dist/*.tar.gz''), CallStatSync ?a, CallStatSync ?b,
      match_report demo_env (JStr ''dist/*.tar.gz'') [?a, ?b]]"
  let ?e = "JsError (Some 422) ''Validation Failed: already_exists''"
  let ?new = "\<lparr>asset_id = 10, asset_name = ''a.tar.gz'',
               browser_download_url = ''https://host.test/download/a.tar.gz''\<rparr>"
  let ?w4 = "\<lparr>releases = [good_release [?new]], next_id = 11\<rparr>"
  let ?newb = "\<lparr>asset_id = 11, asset_name = ''b.tar.gz'',
               browser_download_url = ''https://host.test/download/b.tar.gz''\<rparr>"
  let ?w5 = "\<lparr>releases = [good_release [?new, ?newb]], next_id = 12\<rparr>"
  let ?evb = "[CallReadFileSync ?b, Info ''Uploading: b.tar.gz (2 bytes)'',
      CallUploadReleaseAsset ''acme'' ''tool'' 7 ''b.tar.gz'' ''bb'', uploaded ''b.tar.gz'']"
  have on: "denyOverwriteBool (JsString ''true'')" and off: "\<not> denyOverwriteBool (JsString ''True'')"
    by code_simp+
  have upd: "?inp\<lparr>denyOverwrite := v\<rparr> = demo_inputs ?paths [] [] v" for v
    by (simp add: demo_inputs_def)
  have parse: "parse_inputs demo_env demo_ctx ?inp = Inr ?p"
    by code_simp
  have res: "resolve_release demo_env demo_ctx (targetTag ?p) (trimmedReleaseName ?p) stocked_repo =
      Some (Inr (Some ?r), ?ev1)"
    by code_simp
  have col: "collect_files demo_env stocked_repo (assetPaths ?p) = (Inr [?a, ?b], ?ev2)"
    by code_simp
  have plan: "dedup [?a, ?b] = [] @ ?a # [?b]"
    by code_simp
  have pre: "upload_files demo_env demo_ctx (Some ?r) flag [] stocked_repo =
      (None, [], [], stocked_repo)" for flag
    by simp
  have read: "readFileSync demo_env ?a stocked_repo = Inr ''aaa''"
    by code_simp
  have up: "uploadReleaseAsset demo_env (owner demo_ctx) (repo demo_ctx) (release_id ?r)
      (basename demo_env ?a) ''aaa'' stocked_repo = (Inl ?e, stocked_repo)"
    by code_simp
  have conflict: "status ?e = Some 422" "js_includes (message ?e) ''already_exists''"
    by code_simp+
  have known: "find (\<lambda>a. asset_name a = basename demo_env ?a) (assets ?r) = Some old_asset"
    by code_simp
  have del: "deleteReleaseAsset demo_env (owner demo_ctx) (repo demo_ctx) (asset_id old_asset)
      stocked_repo = (Inr (), fresh_repo)"
    by code_simp
  have again: "uploadReleaseAsset demo_env (owner demo_ctx) (repo demo_ctx) (release_id ?r)
      (basename demo_env ?a) ''aaa'' fresh_repo = (Inr ?new, ?w4)"
    by code_simp
  have rest: "upload_files demo_env demo_ctx (Some ?r) False [?b] ?w4 =
      (None, [''https://host.test/download/b.tar.gz''], ?evb, ?w5)"
    by code_simp
  have first: "first_attempt demo_env demo_ctx ?r ?a ''aaa'' =
      [CallReadFileSync ?a, Info ''Uploading: a.tar.gz (3 bytes)'',
       CallUploadReleaseAsset ''acme'' ''tool'' 7 ''a.tar.gz'' ''aaa'']"
    by code_simp
  have names: "basename demo_env ?a = ''a.tar.gz''" "owner demo_ctx = ''acme''"
    "repo demo_ctx = ''tool''" "release_id ?r = 7" "asset_id old_asset = 3"
    by code_simp+
  have setting: "parse_inputs demo_env demo_ctx ?inp = Inr ?p \<and>
      resolve_release demo_env demo_ctx (targetTag ?p) (trimmedReleaseName ?p) stocked_repo =
        Some (Inr (Some ?r), ?ev1) \<and>
      collect_files demo_env stocked_repo (assetPaths ?p) = (Inr [?a, ?b], ?ev2) \<and>
      dedup [?a, ?b] = [] @ ?a # [?b] \<and>
      upload_files demo_env demo_ctx (Some ?r) flag [] stocked_repo =
        (None, [], [], stocked_repo) \<and>
      readFileSync demo_env ?a stocked_repo = Inr ''aaa'' \<and>
      uploadReleaseAsset demo_env (owner demo_ctx) (repo demo_ctx) (release_id ?r)
        (basename demo_env ?a) ''aaa'' stocked_repo = (Inl ?e, stocked_repo) \<and>
      status ?e = Some 422 \<and> js_includes (message ?e) ''already_exists''" for flag
    using parse res col plan pre read up conflict by blast
  have quiet_part: "filter is_remote_call
      (target_info (targetTag ?p) (trimmedReleaseName ?p) @ ?ev1 @ ?ev2 @
       plan_info [?a, ?b] (dedup [?a, ?b])) = [CallGetReleaseByTag ''acme'' ''tool'' ''v1.0.0'']"
    by (simp add: target_info_def plan_info_def match_report_def)
  have t: "JsString ''true'' = JsBoolean True \<or> JsString ''true'' = JsString ''true''"
    by simp
  note deny = deny_overwrite_only_true [of "JsString ''true''" demo_env demo_ctx ?inp stocked_repo,
      THEN conjunct2, THEN conjunct2, THEN conjunct2, rule_format, OF setting,
      THEN conjunct1, rule_format, OF t]
  have "run demo_env demo_ctx (?inp\<lparr>denyOverwrite := JsString ''true''\<rparr>) stocked_repo =
      Some (Thrown ?e,
            target_info (targetTag ?p) (trimmedReleaseName ?p) @ ?ev1 @ ?ev2 @
            plan_info [?a, ?b] (dedup [?a, ?b]) @ [] @
            first_attempt demo_env demo_ctx ?r ?a ''aaa'' @
            [SetFailed (conflict_message (basename demo_env ?a))], stocked_repo)"
    by (rule deny)
  then have denied: "run demo_env demo_ctx (demo_inputs ?paths [] [] (JsString ''true''))
      stocked_repo =
      Some (Thrown ?e,
            (target_info (targetTag ?p) (trimmedReleaseName ?p) @ ?ev1 @ ?ev2 @
             plan_info [?a, ?b] (dedup [?a, ?b]) @
             first_attempt demo_env demo_ctx ?r ?a ''aaa'') @
            [SetFailed (conflict_message ''a.tar.gz'')], stocked_repo)"
    by (simp only: upd names append_Nil append_assoc)
  have denied_calls: "filter is_remote_call
      (target_info (targetTag ?p) (trimmedReleaseName ?p) @ ?ev1 @ ?ev2 @
       plan_info [?a, ?b] (dedup [?a, ?b]) @ first_attempt demo_env demo_ctx ?r ?a ''aaa'') =
      [CallGetReleaseByTag ''acme'' ''tool'' ''v1.0.0'',
       CallUploadReleaseAsset ''acme'' ''tool'' 7 ''a.tar.gz'' ''aaa'']"
    unfolding first by (simp add: target_info_def plan_info_def match_report_def)
  have f: "\<not> (JsString ''True'' = JsBoolean True \<or> JsString ''True'' = JsString ''true'')"
    by simp
  from deny_overwrite_only_true [of "JsString ''True''" demo_env demo_ctx ?inp stocked_repo] f
  have same: "run demo_env demo_ctx (demo_inputs ?paths [] [] (JsString ''True'')) stocked_repo =
      run demo_env demo_ctx (demo_inputs ?paths [] [] (JsBoolean False)) stocked_repo"
    unfolding upd by blast
  let ?evs = "target_info (targetTag ?p) (trimmedReleaseName ?p) @ ?ev1 @ ?ev2 @
      plan_info [?a, ?b] (dedup [?a, ?b]) @ [] @ first_attempt demo_env demo_ctx ?r ?a ''aaa'' @
      [overwrite_warning demo_env ?a,
       CallDeleteReleaseAsset (owner demo_ctx) (repo demo_ctx) (asset_id old_asset),
       Info (''Deleted existing asset: '' @ basename demo_env ?a),
       CallUploadReleaseAsset (owner demo_ctx) (repo demo_ctx) (release_id ?r)
         (basename demo_env ?a) ''aaa'',
       uploaded (basename demo_env ?a)] @ ?evb @
      [SetOutput ''download_urls''
         (JSON_stringify demo_env
            (JArr (map JStr ([] @ browser_download_url ?new #
                             [''https://host.test/download/b.tar.gz''])))),
       Info (check_mark @ '' Successfully uploaded '' @
             show_nat (length ([] @ browser_download_url ?new #
                               [''https://host.test/download/b.tar.gz''])) @
             '' asset(s)''),
       Summary ''Release Assets Uploaded''
         (''Release: '' @ show_name ?r @ '' ('' @ tag_name ?r @ '')'')
         (map (\<lambda>url. ''['' @ basename demo_env url @ ''](''  @ url @ '')'')
            ([] @ browser_download_url ?new # [''https://host.test/download/b.tar.gz'']))]"
  have more: "find (\<lambda>x. asset_name x = basename demo_env ?a) (assets ?r) = Some old_asset \<and>
      deleteReleaseAsset demo_env (owner demo_ctx) (repo demo_ctx) (asset_id old_asset)
        stocked_repo = (Inr (), fresh_repo) \<and>
      uploadReleaseAsset demo_env (owner demo_ctx) (repo demo_ctx) (release_id ?r)
        (basename demo_env ?a) ''aaa'' fresh_repo = (Inr ?new, ?w4) \<and>
      upload_files demo_env demo_ctx (Some ?r) False [?b] ?w4 =
        (None, [''https://host.test/download/b.tar.gz''], ?evb, ?w5)"
    using known del again rest by blast
  note allow = deny_overwrite_only_true [of "JsString ''True''" demo_env demo_ctx ?inp
      stocked_repo, THEN conjunct2, THEN conjunct2, THEN conjunct2, rule_format, OF setting,
      THEN conjunct2, rule_format, OF f more]
  have "run demo_env demo_ctx (?inp\<lparr>denyOverwrite := JsString ''True''\<rparr>) stocked_repo =
      Some (Returned, ?evs, ?w5)"
    by (rule allow)
  then have replaced: "run demo_env demo_ctx (demo_inputs ?paths [] [] (JsString ''True''))
      stocked_repo = Some (Returned, ?evs, ?w5)"
    by (simp only: upd)
  have replaced_calls: "filter is_remote_call ?evs =
      [CallGetReleaseByTag ''acme'' ''tool'' ''v1.0.0'',
       CallUploadReleaseAsset ''acme'' ''tool'' 7 ''a.tar.gz'' ''aaa'',
       CallDeleteReleaseAsset ''acme'' ''tool'' 3,
       CallUploadReleaseAsset ''acme'' ''tool'' 7 ''a.tar.gz'' ''aaa'',
       CallUploadReleaseAsset ''acme'' ''tool'' 7 ''b.tar.gz'' ''bb'']"
    unfolding first names
    by (simp add: target_info_def plan_info_def match_report_def overwrite_warning_def
          uploaded_def)
  have replaced_ok: "filter is_SetFailed ?evs = []"
    unfolding first names
    by (simp add: target_info_def plan_info_def match_report_def overwrite_warning_def
          uploaded_def)
  from on off denied denied_calls same replaced replaced_calls replaced_ok show ?thesis
    by blast
qed

end
